theory Spec2Isabelle
  imports Main "HOL-Library.Char_ord" "HOL-Library.List_Lexorder" "HOL-Library.Product_Lexorder"
begin

section \<open>Python strings\<close>

text \<open>
  A Python \<open>str\<close> is a sequence of code points. It is modelled as a \<^typ>\<open>string\<close>, a
  list of \<^typ>\<open>char\<close>, where a \<^typ>\<open>char\<close> stands for one code point in the range
  U+0000 to U+00FF (so \<open>len\<close> is \<^const>\<open>length\<close> and the order of the library
  theories \<open>Char_ord\<close> and \<open>List_Lexorder\<close> is Python's comparison of strings).
  Code points above U+00FF are outside the model.
\<close>

text \<open>\<open>s.startswith(p)\<close>\<close>

definition startswith :: "string \<Rightarrow> string \<Rightarrow> bool" where
  "startswith s p = (take (length p) s = p)"

text \<open>\<open>sub in s\<close>: some suffix of \<open>s\<close> starts with \<open>sub\<close>.\<close>

fun isin :: "string \<Rightarrow> string \<Rightarrow> bool" where
  "isin sub [] = (sub = [])"
| "isin sub (c # cs) = (startswith (c # cs) sub \<or> isin sub cs)"

text \<open>
  \<open>c.isspace()\<close> for a code point below U+0100: the ASCII white space U+0009 to U+000D,
  U+001C to U+001F and U+0020, and the two Latin-1 ones, U+0085 and U+00A0.
\<close>

definition isspace :: "char \<Rightarrow> bool" where
  "isspace c = (let n = (of_char c :: nat)
                in (9 \<le> n \<and> n \<le> 13) \<or> (28 \<le> n \<and> n \<le> 32) \<or> n = 133 \<or> n = 160)"

text \<open>\<open>s.strip()\<close>: white space is removed at both ends.\<close>

definition strip :: "string \<Rightarrow> string" where
  "strip s = rev (dropWhile isspace (rev (dropWhile isspace s)))"

text \<open>
  \<open>s.lower()\<close>, one code point at a time: A to Z, and the Latin-1 capitals U+00C0 to
  U+00DE without the multiplication sign U+00D7, move up by 32.
\<close>

definition lower_char :: "char \<Rightarrow> char" where
  "lower_char c = (let n = (of_char c :: nat)
                   in if (65 \<le> n \<and> n \<le> 90) \<or> (192 \<le> n \<and> n \<le> 222 \<and> n \<noteq> 215)
                      then char_of (n + 32) else c)"

definition lower :: "string \<Rightarrow> string" where
  "lower s = map lower_char s"

text \<open>
  \<open>s.split(sep)\<close> for a separator of one character: the parts between the
  occurrences of \<open>sep\<close>, never an empty list (\<open>''.split(',')\<close> is \<open>['']\<close>), so that
  \<open>parts[0]\<close> is \<^const>\<open>hd\<close> and \<open>parts[-1]\<close> is \<^const>\<open>last\<close> of it.
\<close>

fun split_on :: "char \<Rightarrow> string \<Rightarrow> string list" where
  "split_on sep [] = [[]]"
| "split_on sep (c # cs) =
     (if c = sep then [] # split_on sep cs
      else (case split_on sep cs of
              [] \<Rightarrow> [[c]]
            | part # parts \<Rightarrow> (c # part) # parts))"

section \<open>build_concepts_db.py: the lemma canonicalizer\<close>

definition jargon_patterns :: "string list" where
  "jargon_patterns =
     [''apocopic form of'', ''feminine form of'', ''masculine form of'', ''plural form of'',
      ''diminutive of'', ''augmentative of'', ''alternative form of'', ''archaic form of'']"

text \<open>
  The loop over \<open>jargon_patterns\<close>: the \<open>break\<close> is inside the test for a comma, so a
  pattern that occurs in a text without a comma changes nothing and the loop goes on.
\<close>

fun jargon_loop :: "string list \<Rightarrow> string \<Rightarrow> string" where
  "jargon_loop [] translation = translation"
| "jargon_loop (pattern # rest) translation =
     (if isin pattern (lower translation)
      then (if CHR '','' \<in> set translation
            then strip (last (split_on CHR '','' translation))
            else jargon_loop rest translation)
      else jargon_loop rest translation)"

definition separators :: "char list" where
  "separators = [CHR '','', CHR '';'', CHR ''/'']"

text \<open>The loop over \<open>separators\<close>: the first separator that occurs cuts the text, then \<open>break\<close>.\<close>

fun separator_loop :: "char list \<Rightarrow> string \<Rightarrow> string" where
  "separator_loop [] translation = translation"
| "separator_loop (sep # rest) translation =
     (if sep \<in> set translation
      then strip (hd (split_on sep translation))
      else separator_loop rest translation)"

text \<open>
  \<open>_extract_english_lemma\<close>. The source assigns to \<open>translation\<close> four times; the
  model names the successive values.
\<close>

definition extract_english_lemma :: "string \<Rightarrow> string" where
  "extract_english_lemma translation =
     (let translation1 = (if startswith translation ''to '' then drop 3 translation
                          else translation);
          translation2 = (if CHR ''('' \<in> set translation1
                          then strip (hd (split_on CHR ''('' translation1))
                          else translation1);
          translation3 = jargon_loop jargon_patterns translation2;
          translation4 = separator_loop separators translation3
      in strip (lower translation4))"

text \<open>
  The text that reaches the loop over \<open>separators\<close>: the value of \<open>translation\<close> after
  the prefix, the parenthesis and the jargon patterns have been dealt with.
\<close>

definition before_separators :: "string \<Rightarrow> string" where
  "before_separators translation =
     (let translation1 = (if startswith translation ''to '' then drop 3 translation
                          else translation);
          translation2 = (if CHR ''('' \<in> set translation1
                          then strip (hd (split_on CHR ''('' translation1))
                          else translation1)
      in jargon_loop jargon_patterns translation2)"

text \<open>
  The cut as the comment above the loop over \<open>separators\<close> describes it ("Take only first
  word before comma, semicolon, or slash"), and step 4 of the specification: the text up
  to the first character that is one of the three separators, stripped; a text without
  a separator is left as it is. It is used to say on which glosses the loop does what
  its comment says.
\<close>

definition documented_separator_cut :: "string \<Rightarrow> string" where
  "documented_separator_cut translation =
     (if list_ex (\<lambda>sep. sep \<in> set translation) separators
      then strip (takeWhile (\<lambda>c. c \<notin> set separators) translation)
      else translation)"

section \<open>Regular expressions, as the classifier uses them\<close>

text \<open>
  The classifier calls \<open>re.search(pattern, gloss_lower)\<close> and uses the result as a
  truth value only. The patterns are built from literal text, \<open>.\<close>, \<open>\w\<close>, \<open>^\<close>, \<open>$\<close>,
  \<open>\b\<close>, groups with alternatives, \<open>+\<close>, \<open>+?\<close> and \<open>*\<close>; whether some match exists does
  not depend on a quantifier being greedy or lazy, so \<open>+?\<close> is \<open>Plus\<close>.
\<close>

datatype rx =
    Lit string
  | Dot
  | W
  | Bol
  | Eol
  | WB
  | Seq rx rx
  | Or rx rx
  | Plus rx
  | Star rx

text \<open>
  \<open>\w\<close> on a code point below U+0100: a letter, a digit or a numeric character in
  the sense of \<open>str.isalnum\<close>, or the underscore.
\<close>

definition isword :: "char \<Rightarrow> bool" where
  "isword c = (let n = (of_char c :: nat)
               in (48 \<le> n \<and> n \<le> 57) \<or> (65 \<le> n \<and> n \<le> 90) \<or> n = 95 \<or> (97 \<le> n \<and> n \<le> 122)
                  \<or> n = 170 \<or> n = 178 \<or> n = 179 \<or> n = 181 \<or> n = 185 \<or> n = 186
                  \<or> (188 \<le> n \<and> n \<le> 190) \<or> (192 \<le> n \<and> n \<le> 214)
                  \<or> (216 \<le> n \<and> n \<le> 246) \<or> (248 \<le> n \<and> n \<le> 255))"

text \<open>
  A set of positions of a string \<open>s\<close> is a list of \<open>length s + 1\<close> truth values:
  entry \<open>i\<close> says whether position \<open>i\<close> (before the character \<open>s ! i\<close>, or the end)
  is in the set. \<open>step_class\<close> moves every position over one character of a class.
\<close>

definition step_class :: "(char \<Rightarrow> bool) \<Rightarrow> string \<Rightarrow> bool list \<Rightarrow> bool list" where
  "step_class cls s P = False # map2 (\<lambda>c p. p \<and> cls c) s P"

fun step_lit :: "string \<Rightarrow> string \<Rightarrow> bool list \<Rightarrow> bool list" where
  "step_lit [] s P = P"
| "step_lit (c # cs) s P = step_lit cs s (step_class (\<lambda>d. d = c) s P)"

text \<open>\<open>^\<close> holds at position 0 only (the patterns are used without flags).\<close>

fun at_bol :: "bool list \<Rightarrow> bool list" where
  "at_bol [] = []"
| "at_bol (p # ps) = p # map (\<lambda>_. False) ps"

text \<open>\<open>$\<close> holds at the end, and before a line feed that is the last character.\<close>

fun at_eol :: "string \<Rightarrow> bool list \<Rightarrow> bool list" where
  "at_eol [] ps = ps"
| "at_eol [c] (p # ps) = (p \<and> c = CHR 0x0A) # ps"
| "at_eol (c # cs) (p # ps) = False # at_eol cs ps"
| "at_eol (c # cs) [] = []"

text \<open>
  \<open>\b\<close> holds where exactly one of the characters before and after the position is a
  word character; outside the string counts as not a word character. The second
  argument says whether the character before the position is one.
\<close>

fun at_wb :: "string \<Rightarrow> bool \<Rightarrow> bool list \<Rightarrow> bool list" where
  "at_wb [] prev (p # ps) = (p \<and> prev) # ps"
| "at_wb (c # cs) prev (p # ps) = (p \<and> (prev \<noteq> isword c)) # at_wb cs (isword c) ps"
| "at_wb s prev [] = []"

text \<open>
  The positions reachable by zero or more rounds of \<open>f\<close>: a round that adds no
  position ends the iteration, and every other round adds one of the
  \<open>length s + 1\<close> positions, so \<open>length s + 1\<close> rounds are enough.
\<close>

fun star_iter :: "nat \<Rightarrow> (bool list \<Rightarrow> bool list) \<Rightarrow> bool list \<Rightarrow> bool list" where
  "star_iter 0 f P = P"
| "star_iter (Suc k) f P =
     (let Q = map2 (\<or>) P (f P) in if Q = P then P else star_iter k f Q)"

text \<open>\<open>run r s P\<close>: the positions where a match of \<open>r\<close> that starts in \<open>P\<close> can end.\<close>

primrec run :: "rx \<Rightarrow> string \<Rightarrow> bool list \<Rightarrow> bool list" where
  "run (Lit w) s P = step_lit w s P"
| "run Dot s P = step_class (\<lambda>c. c \<noteq> CHR 0x0A) s P"
| "run W s P = step_class isword s P"
| "run Bol s P = at_bol P"
| "run Eol s P = at_eol s P"
| "run WB s P = at_wb s False P"
| "run (Seq a b) s P = run b s (run a s P)"
| "run (Or a b) s P = map2 (\<or>) (run a s P) (run b s P)"
| "run (Plus r) s P = star_iter (Suc (length s)) (run r s) (run r s P)"
| "run (Star r) s P = star_iter (Suc (length s)) (run r s) P"

text \<open>\<open>re.search(pattern, s)\<close> as a truth value: a match may start at any position.\<close>

definition re_search :: "rx \<Rightarrow> string \<Rightarrow> bool" where
  "re_search pattern s = list_ex (\<lambda>p. p) (run pattern s (replicate (Suc (length s)) True))"

text \<open>A sequence of parts, and a group \<open>(a|b|c)\<close> of literal alternatives.\<close>

fun cat :: "rx list \<Rightarrow> rx" where
  "cat [] = Lit []"
| "cat [r] = r"
| "cat (r # rs) = Seq r (cat rs)"

fun alts :: "string list \<Rightarrow> rx" where
  "alts [] = Lit []"
| "alts [w] = Lit w"
| "alts (w # ws) = Or (Lit w) (alts ws)"

section \<open>The gloss classifier\<close>

text \<open>\<open>is_inflected_form_definition\<close> of \<open>build_translations.py\<close>.\<close>

definition inflection_keywords :: "string list" where
  "inflection_keywords =
     [''inflection of'', ''plural of'', ''singular of'', ''masculine of'', ''feminine of'',
      ''past participle of'', ''gerund of'', ''present participle of'', ''imperative of'',
      ''combined with'', ''alternative spelling of'', ''alternative form of'',
      ''obsolete spelling of'', ''archaic form of'', ''female equivalent'',
      ''male equivalent'', ''voseo'']"

definition specific_form_patterns :: "rx list" where
  "specific_form_patterns =
     [cat [WB, alts [''superlative'', ''comparative'', ''diminutive'', ''augmentative''],
           Lit '' form of'', WB],
      cat [WB, alts [''short'', ''long'', ''contracted'', ''elided''], Lit '' form of'', WB]]"

definition inflection_patterns :: "rx list" where
  "inflection_patterns =
     [cat [WB, Plus W, Lit ''-person '', Plus Dot, Lit '' '', alts [''singular'', ''plural''],
           Lit '' '', Plus Dot, Lit '' of '', Plus W, Eol],
      cat [WB, Plus W, Lit ''-person '', Plus Dot, Lit '' of '', Plus W, Eol],
      Lit ''subjunctive of'',
      Lit ''indicative of'',
      Lit ''conditional of'',
      Lit ''preterite of'',
      Lit ''imperfect of'',
      cat [Lit ''future '', Plus Dot, Lit '' of '', Plus W]]"

definition is_inflected_form_definition :: "string \<Rightarrow> bool" where
  "is_inflected_form_definition gloss =
     (let gloss_lower = lower gloss
      in if list_ex (\<lambda>keyword. isin keyword gloss_lower) inflection_keywords then True
         else if list_ex (\<lambda>pattern. re_search pattern gloss_lower) specific_form_patterns then True
         else if list_ex (\<lambda>pattern. re_search pattern gloss_lower) inflection_patterns then True
         else False)"

text \<open>
  \<open>is_inflected_form_definition\<close> of \<open>build_translations_bidirectional.py\<close>: five more
  keywords, the same two tables of patterns, and a fourth table.
\<close>

definition inflection_keywords_bidirectional :: "string list" where
  "inflection_keywords_bidirectional =
     [''inflection of'', ''plural of'', ''singular of'', ''masculine of'', ''feminine of'',
      ''neuter of'', ''genitive of'', ''dative of'', ''nominative of'', ''accusative of'',
      ''past participle of'', ''gerund of'', ''present participle of'', ''imperative of'',
      ''combined with'', ''alternative spelling of'', ''alternative form of'',
      ''obsolete spelling of'', ''archaic form of'', ''female equivalent'',
      ''male equivalent'', ''voseo'']"

definition cases4 :: rx where
  "cases4 = alts [''nominative'', ''genitive'', ''dative'', ''accusative'']"

definition german_inflection_patterns :: "rx list" where
  "german_inflection_patterns =
     [cat [Bol, alts [''weak'', ''strong'', ''mixed''], Star (Seq (Lit ''/'') (Plus W)),
           Lit '' '', cases4],
      cat [Bol, cases4, Lit '' '', alts [''singular'', ''plural'']],
      cat [WB, alts [''singular'', ''plural''], Lit '' '', cases4, WB],
      cat [cases4, Lit ''/'', cases4],
      cat [Bol, alts [''comparative'', ''superlative''], Lit '' degree''],
      cat [WB, alts [''comparative'', ''superlative''], Lit '' degree of'', WB],
      cat [Bol, alts [''first'', ''second'', ''third''], Lit ''-person '',
           alts [''singular'', ''plural'']],
      cat [WB, alts [''first'', ''second'', ''third''], Lit ''-person '', Plus Dot, Lit '' '',
           alts [''present'', ''past'', ''future'', ''subjunctive'', ''imperative'', ''preterite''],
           Eol],
      cat [alts [''first'', ''second'', ''third''], Lit ''/'',
           alts [''first'', ''second'', ''third''], Lit ''-person''],
      cat [WB, Lit ''all-case '', alts [''singular'', ''plural''], WB],
      cat [WB, Lit ''all-gender '', alts [''singular'', ''plural''], WB],
      cat [Bol, alts [''singular'', ''plural''], Lit '' imperative'', Eol],
      cat [Bol, alts [''weak'', ''strong'', ''mixed''], Lit '' '', Plus Dot, Lit '' '',
           alts [''singular'', ''plural''], Lit '' '', alts [''comparative'', ''superlative'']],
      cat [WB, alts [''comparative'', ''superlative'', ''positive''], Lit '' degree of '',
           Plus W, Eol],
      cat [WB, Lit ''dependent '', alts [''subjunctive'', ''preterite'', ''imperative''], WB]]"

definition is_inflected_form_definition_bidirectional :: "string \<Rightarrow> bool" where
  "is_inflected_form_definition_bidirectional gloss =
     (let gloss_lower = lower gloss
      in if list_ex (\<lambda>keyword. isin keyword gloss_lower) inflection_keywords_bidirectional
         then True
         else if list_ex (\<lambda>pattern. re_search pattern gloss_lower) specific_form_patterns then True
         else if list_ex (\<lambda>pattern. re_search pattern gloss_lower) inflection_patterns then True
         else if list_ex (\<lambda>pattern. re_search pattern gloss_lower) german_inflection_patterns
         then True
         else False)"

text \<open>
  \<open>is_technical_definition\<close>: the two files define it with the same tables and the
  same body. \<open>category_names\<close> defaults to \<open>None\<close>, and \<open>None\<close> and the empty list both
  skip the check of the categories. The names are strings (the source skips any that
  is not).
\<close>

definition bad_categories :: "string list" where
  "bad_categories =
     [''letter names'', ''psychoanalysis'', ''cities'', ''provinces'', ''countries'',
      ''place names'', ''toponyms'']"

definition technical_patterns :: "string list" where
  "technical_patterns =
     [''letter of the'', ''name of the letter'', ''the name of the'', ''called ye'',
      ''called i griega'', ''called ef'', ''alphabet'', ''written in the latin script'',
      ''written in the'', ''freud'', ''jung'', ''psychoanalysis'', ''concept of the'',
      ''greek letter'', ''latin letter'', ''latin-script letter'', ''initialism'',
      ''abbreviation'', ''misspelling'', ''diminutive of'', ''augmentative of'', ''a city'',
      ''a suburb'', ''a town'', ''a village'', ''a census-designated place'', ''a comune'',
      ''a province'', ''capital of'', ''a state of'', ''a number of places'', ''county,'',
      ''a country'', ''a region'']"

definition is_technical_definition :: "string \<Rightarrow> string list option \<Rightarrow> bool" where
  "is_technical_definition gloss category_names =
     (if (case category_names of
            None \<Rightarrow> False
          | Some names \<Rightarrow>
              list_ex (\<lambda>cat_name. list_ex (\<lambda>bad_cat. isin bad_cat (lower cat_name)) bad_categories)
                      names)
      then True
      else list_ex (\<lambda>pattern. isin pattern (lower gloss)) technical_patterns)"

section \<open>build_translations_bidirectional.py: mirroring and augmentation\<close>

text \<open>A translation record \<open>(lemma_from, lang_from, translation, lang_to)\<close>.\<close>

type_synonym translation = "string \<times> string \<times> string \<times> string"

text \<open>
  \<open>reverse_translations\<close>: the loop appends one swapped tuple per record to
  \<open>reversed_trans\<close>, which starts empty.
\<close>

definition reverse_translations :: "translation list \<Rightarrow> translation list" where
  "reverse_translations translations =
     fold (\<lambda>(lemma_from, lang_from, translation, lang_to) reversed_trans.
             reversed_trans @ [(translation, lang_to, lemma_from, lang_from)])
          translations []"

definition SPARSE_THRESHOLD :: nat where
  "SPARSE_THRESHOLD = 10000"

definition RICH_THRESHOLD :: nat where
  "RICH_THRESHOLD = 100000"

text \<open>
  The augmentation block of \<open>main\<close> (step 4.5): from the two extracted directions it
  computes the two lists that are inserted afterwards. \<open>translations1.extend(reversed)\<close>
  changes the list in place; the model returns both lists.
\<close>

definition augment_sparse :: "translation list \<Rightarrow> translation list \<Rightarrow> translation list \<times> translation list" where
  "augment_sparse translations1 translations2 =
     (let original_count1 = length translations1;
          original_count2 = length translations2
      in if original_count1 < SPARSE_THRESHOLD \<and> original_count2 > RICH_THRESHOLD
         then (translations1 @ reverse_translations translations2, translations2)
         else if original_count2 < SPARSE_THRESHOLD \<and> original_count1 > RICH_THRESHOLD
         then (translations1, translations2 @ reverse_translations translations1)
         else (translations1, translations2))"

section \<open>build_concepts_db.py: the concept clusterer\<close>

text \<open>
  A Python \<open>dict\<close> keeps its keys in the order of their first insertion, and the build
  iterates over its dictionaries. A dictionary is therefore a list of pairs with distinct
  keys: \<^const>\<open>map_of\<close> looks a key up, and \<open>dict_set\<close> is the assignment \<open>d[k] = v\<close>, which
  replaces the value of a key that is present and appends a key that is not.
\<close>

fun dict_set :: "('k \<times> 'v) list \<Rightarrow> 'k \<Rightarrow> 'v \<Rightarrow> ('k \<times> 'v) list" where
  "dict_set [] k v = [(k, v)]"
| "dict_set ((k', v') # d) k v =
     (if k' = k then (k, v) # d else (k', v') # dict_set d k v)"

text \<open>A lemma's identity \<open>(lang, lemma, pos)\<close>; identifiers and ranks are natural numbers.\<close>

type_synonym lemma_key = "string \<times> string \<times> string"

text \<open>The fields of \<open>ConceptDBBuilder\<close> that the build reads and writes.\<close>

record builder =
  forms :: "(string \<times> string \<times> string \<times> string) list"
  "lemmas" :: "(lemma_key \<times> nat) list"
  concepts :: "((string \<times> string) \<times> nat) list"
  senses :: "(nat \<times> nat \<times> nat) list"
  next_lemma_id :: nat
  next_concept_id :: nat

text \<open>\<open>__init__\<close>\<close>

definition init_builder :: builder where
  "init_builder =
     \<lparr>forms = [], lemmas = [], concepts = [], senses = [],
      next_lemma_id = 1, next_concept_id = 1\<rparr>"

definition LANGUAGES :: "string list" where
  "LANGUAGES = [''en'', ''es'', ''fr'', ''de'', ''it'']"

text \<open>
  A row \<open>(word, lemma, pos)\<close> of a language pack; \<open>pos\<close> may be \<open>NULL\<close>. The body of
  the loop over the rows: \<open>pos or 'UNKNOWN'\<close> replaces \<open>None\<close> and the empty string.
\<close>

type_synonym langpack_row = "string \<times> string \<times> string option"

definition add_form_row :: "string \<Rightarrow> builder \<Rightarrow> langpack_row \<Rightarrow> builder" where
  "add_form_row lang st row =
     (case row of (word, lemma, pos0) \<Rightarrow>
        let pos = (case pos0 of None \<Rightarrow> ''UNKNOWN''
                   | Some p \<Rightarrow> if p = [] then ''UNKNOWN'' else p);
            st1 = st\<lparr>forms := forms st @ [(lang, word, lemma, pos)]\<rparr>;
            lemma_key = (lang, lemma, pos)
        in if map_of (lemmas st1) lemma_key = None
           then st1\<lparr>lemmas := dict_set (lemmas st1) lemma_key (next_lemma_id st1),
                    next_lemma_id := next_lemma_id st1 + 1\<rparr>
           else st1)"

text \<open>
  \<open>extract_forms_and_lemmas\<close>. The argument gives, for a language, the rows of its
  language pack, or \<open>None\<close> when the file does not exist (the language is skipped).
\<close>

definition extract_forms_and_lemmas :: "(string \<Rightarrow> langpack_row list option) \<Rightarrow> builder \<Rightarrow> builder" where
  "extract_forms_and_lemmas langpacks st =
     fold (\<lambda>lang st. case langpacks lang of
                        None \<Rightarrow> st
                      | Some rows \<Rightarrow> fold (\<lambda>row st. add_form_row lang st row) rows st)
          LANGUAGES st"

text \<open>The cache of the first part of speech of every \<open>(lang, lemma)\<close>.\<close>

definition build_pos_cache :: "(lemma_key \<times> nat) list \<Rightarrow> ((string \<times> string) \<times> string) list" where
  "build_pos_cache ls =
     fold (\<lambda>((lang, lemma, pos), _) pos_cache.
             if map_of pos_cache (lang, lemma) = None
             then dict_set pos_cache (lang, lemma) pos
             else pos_cache)
          ls []"

text \<open>
  The rows of one translation database that take part: those into English from another
  language. The rows into another language are collected and never used.
\<close>

definition en_translations_of :: "translation list \<Rightarrow> (string \<times> string \<times> string) list" where
  "en_translations_of rows =
     map (\<lambda>(l_from, lang_from, trans, lang_to). (l_from, lang_from, trans))
         (filter (\<lambda>(l_from, lang_from, trans, lang_to). lang_to = ''en'' \<and> lang_from \<noteq> ''en'')
                 rows)"

text \<open>
  \<open>english_hub\<close> maps \<open>(english_lemma, pos)\<close> to a dictionary from
  \<open>(lang, lemma, pos)\<close> to the length of the lemma. The body of the loop over the
  translations into English: reading \<open>english_hub[hub_key]\<close> creates an empty
  dictionary for a new key, and a source key that is present keeps its length.
\<close>

type_synonym hub = "((string \<times> string) \<times> (lemma_key \<times> nat) list) list"

definition hub_add :: "((string \<times> string) \<times> string) list \<Rightarrow> hub \<Rightarrow> string \<times> string \<times> string \<Rightarrow> hub" where
  "hub_add pos_cache english_hub row =
     (case row of (lemma_from, lang_from, translation) \<Rightarrow>
        let english_lemma = extract_english_lemma translation;
            cache_key = (lang_from, lemma_from);
            source_pos = (case map_of pos_cache cache_key of
                            Some p \<Rightarrow> p | None \<Rightarrow> ''UNKNOWN'');
            hub_key = (english_lemma, source_pos);
            source_key = (lang_from, lemma_from, source_pos);
            bucket = (case map_of english_hub hub_key of Some b \<Rightarrow> b | None \<Rightarrow> [])
        in if map_of bucket source_key = None
           then dict_set english_hub hub_key (dict_set bucket source_key (length lemma_from))
           else dict_set english_hub hub_key bucket)"

text \<open>
  The loop over the translation databases. A database is given by the rows of its
  \<open>translations\<close> table; one without the table or without rows is skipped, which is
  what the empty list of rows does. The batches of 10,000 visit the translations in
  their order, once each.
\<close>

definition fill_hub :: "((string \<times> string) \<times> string) list \<Rightarrow> translation list list \<Rightarrow> hub" where
  "fill_hub pos_cache translation_dbs =
     fold (\<lambda>rows english_hub.
             fold (\<lambda>row h. hub_add pos_cache h row) (en_translations_of rows) english_hub)
          translation_dbs []"

text \<open>
  \<open>translations_by_lang\<close>: the sorted items are appended to the list of their language,
  the languages in the order of their first item.
\<close>

definition group_by_lang :: "(lemma_key \<times> nat) list \<Rightarrow> (string \<times> (string \<times> string \<times> string \<times> nat) list) list" where
  "group_by_lang sorted_translations =
     fold (\<lambda>((lang, lemma, lemma_pos), len) translations_by_lang.
             dict_set translations_by_lang lang
               ((case map_of translations_by_lang lang of Some l \<Rightarrow> l | None \<Rightarrow> [])
                @ [(lang, lemma, lemma_pos, len)]))
          sorted_translations []"

text \<open>
  \<open>if lemma_key not in self.lemmas: ...\<close> followed by \<open>self.lemmas[lemma_key]\<close>: the
  identifier of a lemma, which is registered under the next free identifier when it is
  new.
\<close>

definition lemma_id_for :: "builder \<Rightarrow> lemma_key \<Rightarrow> builder \<times> nat" where
  "lemma_id_for st lemma_key =
     (case map_of (lemmas st) lemma_key of
        Some lemma_id \<Rightarrow> (st, lemma_id)
      | None \<Rightarrow>
          (st\<lparr>lemmas := dict_set (lemmas st) lemma_key (next_lemma_id st),
              next_lemma_id := next_lemma_id st + 1\<rparr>,
           next_lemma_id st))"

text \<open>Registering the lemma and appending the sense \<open>(lemma_id, concept_id, rank)\<close>.\<close>

definition add_sense :: "nat \<Rightarrow> builder \<Rightarrow> lemma_key \<times> nat \<Rightarrow> builder" where
  "add_sense concept_id st key_rank =
     (case key_rank of (lemma_key, rank_idx) \<Rightarrow>
        case lemma_id_for st lemma_key of (st1, lemma_id) \<Rightarrow>
          st1\<lparr>senses := senses st1 @ [(lemma_id, concept_id, rank_idx)]\<rparr>)"

text \<open>
  The senses of one language of a concept:
  \<open>for rank_idx, (...) in enumerate(lang_translations[:3], 1)\<close>.
\<close>

definition add_lang_senses :: "nat \<Rightarrow> builder \<Rightarrow> string \<times> (string \<times> string \<times> string \<times> nat) list \<Rightarrow> builder" where
  "add_lang_senses concept_id st lang_group =
     (case lang_group of (lang0, lang_translations) \<Rightarrow>
        fold (\<lambda>(rank_idx, (lang, lemma, lemma_pos, len)) st.
                add_sense concept_id st ((lang, lemma, lemma_pos), rank_idx))
             (List.enumerate 1 (take 3 lang_translations)) st)"

text \<open>
  The body of the loop over \<open>english_hub.items()\<close>: a new concept, the senses of every
  language in the order \<open>(length, lemma)\<close> (\<open>sorted\<close> is stable, as \<^const>\<open>sort_key\<close>
  is), and the sense of the English lemma itself at rank 1.
\<close>

definition create_concept :: "builder \<Rightarrow> (string \<times> string) \<times> (lemma_key \<times> nat) list \<Rightarrow> builder" where
  "create_concept st entry =
     (case entry of ((english_lemma, pos), translations) \<Rightarrow>
        let concept_id = next_concept_id st;
            st1 = st\<lparr>next_concept_id := next_concept_id st + 1\<rparr>;
            st2 = st1\<lparr>concepts := dict_set (concepts st1) (english_lemma, pos) concept_id\<rparr>;
            sorted_translations =
              sort_key (\<lambda>((lang, lemma, lemma_pos), len). (len, lemma)) translations;
            translations_by_lang = group_by_lang sorted_translations;
            st3 = fold (\<lambda>lang_group st. add_lang_senses concept_id st lang_group) translations_by_lang st2;
            en_key = (''en'', english_lemma, pos)
        in add_sense concept_id st3 (en_key, 1))"

definition build_concepts_from_translations :: "translation list list \<Rightarrow> builder \<Rightarrow> builder" where
  "build_concepts_from_translations translation_dbs st =
     (let pos_cache = build_pos_cache (lemmas st);
          english_hub = fill_hub pos_cache translation_dbs
      in fold (\<lambda>entry st. create_concept st entry) english_hub st)"

text \<open>The first two steps of \<open>main\<close>: the builder after the clustering.\<close>

definition build :: "(string \<Rightarrow> langpack_row list option) \<Rightarrow> translation list list \<Rightarrow> builder" where
  "build langpacks translation_dbs =
     build_concepts_from_translations translation_dbs
       (extract_forms_and_lemmas langpacks init_builder)"

text \<open>
  Reading the result: the lemma with a given identifier, and the senses that link a
  concept to the lemmas of one language, in the order of the list \<open>senses\<close>.
\<close>

definition lemma_of_id :: "(lemma_key \<times> nat) list \<Rightarrow> nat \<Rightarrow> lemma_key option" where
  "lemma_of_id ls lemma_id = map_option fst (find (\<lambda>(k, i). i = lemma_id) ls)"

definition sense_rank :: "nat \<times> nat \<times> nat \<Rightarrow> nat" where
  "sense_rank sense = snd (snd sense)"

definition sense_lang :: "builder \<Rightarrow> nat \<times> nat \<times> nat \<Rightarrow> string option" where
  "sense_lang st sense = map_option fst (lemma_of_id (lemmas st) (fst sense))"

definition sense_lemma :: "builder \<Rightarrow> nat \<times> nat \<times> nat \<Rightarrow> string" where
  "sense_lemma st sense =
     (case lemma_of_id (lemmas st) (fst sense) of
        Some (lang, lemma, pos) \<Rightarrow> lemma | None \<Rightarrow> [])"

definition senses_of :: "builder \<Rightarrow> nat \<Rightarrow> string \<Rightarrow> (nat \<times> nat \<times> nat) list" where
  "senses_of st c lang =
     filter (\<lambda>sense. fst (snd sense) = c \<and> sense_lang st sense = Some lang) (senses st)"

text \<open>The lemma strings of the senses of a concept for one language, listed by ascending rank.\<close>

definition lemmas_by_rank :: "builder \<Rightarrow> nat \<Rightarrow> string \<Rightarrow> string list" where
  "lemmas_by_rank st c lang =
     map (sense_lemma st)
         (sort_key (\<lambda>(lemma_id, concept_id, rank). rank) (senses_of st c lang))"

section \<open>build_concepts_db.py: the store\<close>

text \<open>
  The tables of \<open>concepts.db\<close> that the build writes, as the lists of their rows in
  the order of insertion. The columns are those of the \<open>INSERT\<close> statements:
  \<open>forms(lang, form, lemma_id, feats_json)\<close>, \<open>lemmas(id, lang, lemma, pos, freq_rank)\<close>,
  \<open>concepts(id, pos, gloss)\<close> and \<open>senses(lemma_id, concept_id, rank)\<close>. The table
  \<open>user_overrides\<close> is created and never written.
\<close>

type_synonym form_row = "string \<times> string \<times> nat \<times> string option"
type_synonym lemma_row = "nat \<times> string \<times> string \<times> string \<times> nat option"
type_synonym concept_row = "nat \<times> string \<times> string"
type_synonym sense_row = "nat \<times> nat \<times> nat"

record store =
  forms_table :: "form_row list"
  lemmas_table :: "lemma_row list"
  concepts_table :: "concept_row list"
  senses_table :: "sense_row list"

text \<open>The store after \<open>executescript\<close>: every table exists and is empty.\<close>

definition empty_store :: store where
  "empty_store = \<lparr>forms_table = [], lemmas_table = [], concepts_table = [], senses_table = []\<rparr>"

datatype db_error = IntegrityError

text \<open>
  The keys that the schema declares: \<open>PRIMARY KEY (lang, form, lemma_id)\<close> on forms,
  \<open>id INTEGER PRIMARY KEY\<close> and \<open>UNIQUE(lang, lemma, pos)\<close> on lemmas,
  \<open>id INTEGER PRIMARY KEY\<close> on concepts, \<open>PRIMARY KEY (lemma_id, concept_id)\<close> on
  senses. Foreign keys are not enforced (the build does not switch them on).
\<close>

definition form_key :: "form_row \<Rightarrow> string \<times> string \<times> nat" where
  "form_key row = (case row of (lang, form, lemma_id, feats_json) \<Rightarrow> (lang, form, lemma_id))"

definition lemma_id_key :: "lemma_row \<Rightarrow> nat" where
  "lemma_id_key row = (case row of (lemma_id, lang, lemma, pos, freq_rank) \<Rightarrow> lemma_id)"

definition lemma_unique_key :: "lemma_row \<Rightarrow> string \<times> string \<times> string" where
  "lemma_unique_key row =
     (case row of (lemma_id, lang, lemma, pos, freq_rank) \<Rightarrow> (lang, lemma, pos))"

definition concept_key :: "concept_row \<Rightarrow> nat" where
  "concept_key row = (case row of (concept_id, pos, gloss) \<Rightarrow> concept_id)"

definition sense_key :: "sense_row \<Rightarrow> nat \<times> nat" where
  "sense_key row = (case row of (lemma_id, concept_id, rank) \<Rightarrow> (lemma_id, concept_id))"

text \<open>A row whose key is the key of a row of the table.\<close>

definition duplicate_key :: "('r \<Rightarrow> 'k) \<Rightarrow> 'r list \<Rightarrow> 'r \<Rightarrow> bool" where
  "duplicate_key key table row = list_ex (\<lambda>r. key r = key row) table"

text \<open>\<open>INSERT INTO lemmas ...\<close> and \<open>INSERT INTO concepts ...\<close>: a duplicate key raises.\<close>

definition insert_lemma :: "lemma_row list \<Rightarrow> lemma_row \<Rightarrow> db_error + lemma_row list" where
  "insert_lemma table row =
     (if duplicate_key lemma_id_key table row \<or> duplicate_key lemma_unique_key table row
      then Inl IntegrityError else Inr (table @ [row]))"

definition insert_concept :: "concept_row list \<Rightarrow> concept_row \<Rightarrow> db_error + concept_row list" where
  "insert_concept table row =
     (if duplicate_key concept_key table row then Inl IntegrityError else Inr (table @ [row]))"

text \<open>
  \<open>INSERT OR IGNORE INTO forms ...\<close> and \<open>INSERT OR IGNORE INTO senses ...\<close>: a row with
  a duplicate key is skipped.
\<close>

definition insert_or_ignore_form :: "form_row list \<Rightarrow> form_row \<Rightarrow> form_row list" where
  "insert_or_ignore_form table row =
     (if duplicate_key form_key table row then table else table @ [row])"

definition insert_or_ignore_sense :: "sense_row list \<Rightarrow> sense_row \<Rightarrow> sense_row list" where
  "insert_or_ignore_sense table row =
     (if duplicate_key sense_key table row then table else table @ [row])"

text \<open>
  \<open>executemany\<close> with a statement that can raise: the rows in their order, up to the
  first error. The batches of 10,000 rows are consecutive slices, so the loop over the
  batches is one \<open>executemany\<close> over all rows.
\<close>

fun executemany :: "('t \<Rightarrow> 'r \<Rightarrow> db_error + 't) \<Rightarrow> 't \<Rightarrow> 'r list \<Rightarrow> db_error + 't" where
  "executemany stmt table [] = Inr table"
| "executemany stmt table (row # rows) =
     (case stmt table row of
        Inl e \<Rightarrow> Inl e
      | Inr table' \<Rightarrow> executemany stmt table' rows)"

definition lemma_rows :: "builder \<Rightarrow> lemma_row list" where
  "lemma_rows b = map (\<lambda>((lang, lemma, pos), lemma_id). (lemma_id, lang, lemma, pos, None)) (lemmas b)"

text \<open>A form whose lemma is not registered is left out.\<close>

definition form_rows :: "builder \<Rightarrow> form_row list" where
  "form_rows b =
     concat (map (\<lambda>(lang, form, lemma, pos).
                    case map_of (lemmas b) (lang, lemma, pos) of
                      Some lemma_id \<Rightarrow> [(lang, form, lemma_id, None)]
                    | None \<Rightarrow> [])
                 (forms b))"

definition concept_rows :: "builder \<Rightarrow> concept_row list" where
  "concept_rows b = map (\<lambda>((gloss, pos), concept_id). (concept_id, pos, gloss)) (concepts b)"

text \<open>
  The statements between \<open>BEGIN TRANSACTION\<close> and \<open>COMMIT\<close>, on the empty tables: the
  tables to commit, or the error that ends the build.
\<close>

definition load_tables :: "builder \<Rightarrow> db_error + store" where
  "load_tables b =
     (case executemany insert_lemma [] (lemma_rows b) of
        Inl e \<Rightarrow> Inl e
      | Inr lt \<Rightarrow>
          let ft = fold (\<lambda>row table. insert_or_ignore_form table row) (form_rows b) []
          in case executemany insert_concept [] (concept_rows b) of
               Inl e \<Rightarrow> Inl e
             | Inr ct \<Rightarrow>
                 let st = fold (\<lambda>row table. insert_or_ignore_sense table row) (senses b) []
                 in Inr \<lparr>forms_table = ft, lemmas_table = lt, concepts_table = ct,
                         senses_table = st\<rparr>)"

text \<open>
  \<open>create_concepts_db\<close>. The second argument is what is at \<open>output_path\<close> before the
  call (\<open>None\<close>: no file); the result is the error raised, if any, and what is at
  \<open>output_path\<close> afterwards. An existing file is unlinked first; \<open>connect\<close> and
  \<open>executescript\<close> then create the file with its empty tables, outside any
  transaction; an error inside the transaction leaves the function before \<open>COMMIT\<close>,
  so that none of its rows is in the file.
\<close>

definition create_concepts_db :: "builder \<Rightarrow> store option \<Rightarrow> db_error option \<times> store option" where
  "create_concepts_db b existing =
     (let unlinked = (if existing \<noteq> None then None else existing);
          created = (case unlinked of None \<Rightarrow> Some empty_store | Some s \<Rightarrow> Some s)
      in case load_tables b of
           Inl e \<Rightarrow> (Some e, created)
         | Inr s \<Rightarrow> (None, Some s))"

section \<open>Notions for the proofs\<close>

text \<open>The number of positions in a set of positions.\<close>

primrec npos :: "bool list \<Rightarrow> nat" where
  "npos [] = 0"
| "npos (p # P) = (if p then Suc (npos P) else npos P)"

text \<open>Identifiers of lemmas are handed out in increasing order: the registered ones are
  distinct and below the next free one.\<close>

definition wf_builder :: "builder \<Rightarrow> bool" where
  "wf_builder st =
     (distinct (map snd (lemmas st)) \<and>
      list_all (\<lambda>(k, i). i < next_lemma_id st) (lemmas st))"

text \<open>Every sense refers to an identifier that has been handed out.\<close>

definition senses_ok :: "builder \<Rightarrow> bool" where
  "senses_ok st = list_all (\<lambda>(lemma_id, concept_id, rank). lemma_id < next_lemma_id st) (senses st)"

text \<open>A sense with its lemma identifier replaced by the lemma it stands for.\<close>

definition keyed :: "builder \<Rightarrow> nat \<times> nat \<times> nat \<Rightarrow> lemma_key option \<times> nat \<times> nat" where
  "keyed st sense = (lemma_of_id (lemmas st) (fst sense), fst (snd sense), snd (snd sense))"

text \<open>The list \<open>senses\<close>, read in this way.\<close>

definition keyed_senses :: "builder \<Rightarrow> (lemma_key option \<times> nat \<times> nat) list" where
  "keyed_senses st =
     map (\<lambda>(lemma_id, concept_id, rank). (lemma_of_id (lemmas st) lemma_id, concept_id, rank))
         (senses st)"

text \<open>The lemmas and ranks that the loop over one language of a concept adds.\<close>

definition lang_senses :: "string \<times> (string \<times> string \<times> string \<times> nat) list \<Rightarrow> (lemma_key \<times> nat) list" where
  "lang_senses lang_group =
     map (\<lambda>(rank_idx, (lang, lemma, lemma_pos, len)). ((lang, lemma, lemma_pos), rank_idx))
         (List.enumerate 1 (take 3 (snd lang_group)))"

text \<open>The lemmas and ranks that one round of the loop over \<open>english_hub\<close> adds.\<close>

definition concept_senses :: "(string \<times> string) \<times> (lemma_key \<times> nat) list \<Rightarrow> (lemma_key \<times> nat) list" where
  "concept_senses entry =
     concat (map lang_senses
               (group_by_lang (sort_key (\<lambda>((lang, lemma, lemma_pos), len). (len, lemma)) (snd entry))))
     @ [((''en'', fst (fst entry), snd (fst entry)), 1)]"

text \<open>The senses of a whole hub, the concepts numbered from \<open>n\<close>.\<close>

fun hub_senses :: "nat \<Rightarrow> hub \<Rightarrow> (lemma_key option \<times> nat \<times> nat) list" where
  "hub_senses n [] = []"
| "hub_senses n (entry # rest) =
     map (\<lambda>(k, r). (Some k, n, r)) (concept_senses entry) @ hub_senses (Suc n) rest"

text \<open>\<open>st'\<close> comes from \<open>st\<close> by adding the senses \<open>xs\<close> of concept \<open>c\<close>.\<close>

definition extends :: "nat \<Rightarrow> builder \<Rightarrow> builder \<Rightarrow> (lemma_key \<times> nat) list \<Rightarrow> bool" where
  "extends c st st' xs =
     (wf_builder st' \<and> senses_ok st' \<and>
      keyed_senses st' = keyed_senses st @ map (\<lambda>(k, r). (Some k, c, r)) xs \<and>
      concepts st' = concepts st \<and> next_concept_id st' = next_concept_id st)"

text \<open>An item of a bucket as \<open>translations_by_lang\<close> stores it.\<close>

definition flat :: "lemma_key \<times> nat \<Rightarrow> string \<times> string \<times> string \<times> nat" where
  "flat x = (fst (fst x), fst (snd (fst x)), snd (snd (fst x)), snd x)"

text \<open>The sort key \<open>(x[1], x[0][1])\<close>.\<close>

definition rank_key :: "lemma_key \<times> nat \<Rightarrow> nat \<times> string" where
  "rank_key x = (snd x, fst (snd (fst x)))"

text \<open>What the filling of the hub guarantees for a bucket: no English source lemma, and
  the recorded length is the length of the lemma.\<close>

definition bucket_ok :: "(lemma_key \<times> nat) list \<Rightarrow> bool" where
  "bucket_ok tr = list_all (\<lambda>x. fst (fst x) \<noteq> ''en'' \<and> snd x = length (fst (snd (fst x)))) tr"

definition hub_ok :: "hub \<Rightarrow> bool" where
  "hub_ok h = list_all (\<lambda>entry. bucket_ok (snd entry)) h"

text \<open>The builder before the clustering: no senses and no concepts yet.\<close>

definition fresh_builder :: "builder \<Rightarrow> bool" where
  "fresh_builder st =
     (wf_builder st \<and> senses st = [] \<and> concepts st = [] \<and> next_concept_id st = 1)"

text \<open>A small build: one language pack, and one translation database with four Spanish
  words for "dog" and one row out of English.\<close>

definition example_langpacks :: "string \<Rightarrow> langpack_row list option" where
  "example_langpacks = map_of [(''es'', [(''casas'', ''casa'', Some ''NOUN'')])]"

definition example_dbs :: "translation list list" where
  "example_dbs =
     [[(''chucho'', ''es'', ''dog'', ''en''), (''tuso'', ''es'', ''dog'', ''en''),
       (''dog'', ''en'', ''perro'', ''es''), (''can'', ''es'', ''dog, hound'', ''en''),
       (''perro'', ''es'', ''dog'', ''en'')]]"


text \<open>What the inserts of the store ask of a builder: no key of \<open>lemmas\<close> twice (it is a
  dict), and the identifiers of the concepts distinct and below the next free one.\<close>

definition keys_ok :: "builder \<Rightarrow> bool" where
  "keys_ok st =
     (distinct (map fst (lemmas st)) \<and> distinct (map snd (concepts st)) \<and>
      list_all (\<lambda>(k, c). c < next_concept_id st) (concepts st))"
text \<open>A store with one row, for the concrete instances below.\<close>

definition old_store :: store where
  "old_store = empty_store\<lparr>lemmas_table := [(1, ''en'', ''dog'', ''NOUN'', None)]\<rparr>"

section \<open>build_concepts_db.py: the store when the storage fails\<close>

text \<open>
  The exceptions of \<open>sqlite3\<close> that can end \<open>create_concepts_db\<close> inside its
  transaction: \<open>IntegrityError\<close> from a constraint, and \<open>OperationalError\<close> from the
  storage ("database or disk is full", "disk I/O error"), which every statement that
  writes can raise.
\<close>

datatype sqlite_error = OperationalError | Integrity db_error

text \<open>
  A connection: the tables in the file, which is what a reader of \<open>output_path\<close> sees;
  the tables as the open transaction sees them; and the number of writes that the
  storage still accepts (\<open>None\<close>: it does not fail). Only \<open>COMMIT\<close> moves the tables of
  the transaction into the file. The failures are the exceptions that a statement
  raises; the end of the process or of the machine in the middle of a run (the code sets
  \<open>PRAGMA synchronous=OFF\<close>) is not part of this development.
\<close>

record connection =
  committed :: store
  pending :: store
  writes_left :: "nat option"

definition storage_write :: "connection \<Rightarrow> sqlite_error + connection" where
  "storage_write conn =
     (case writes_left conn of
        None \<Rightarrow> Inr conn
      | Some 0 \<Rightarrow> Inl OperationalError
      | Some (Suc n) \<Rightarrow> Inr (conn\<lparr>writes_left := Some n\<rparr>))"

text \<open>
  One row of an \<open>executemany\<close>: the write reaches the storage, then the statement runs
  on the tables of the transaction. An exception leaves the function; it is returned
  with the connection as it is at that moment.
\<close>

definition write_lemma :: "connection \<Rightarrow> lemma_row \<Rightarrow> sqlite_error \<times> connection + connection" where
  "write_lemma conn row =
     (case storage_write conn of
        Inl e \<Rightarrow> Inl (e, conn)
      | Inr conn' \<Rightarrow>
          (case insert_lemma (lemmas_table (pending conn')) row of
             Inl e \<Rightarrow> Inl (Integrity e, conn')
           | Inr table \<Rightarrow> Inr (conn'\<lparr>pending := (pending conn')\<lparr>lemmas_table := table\<rparr>\<rparr>)))"

definition write_form :: "connection \<Rightarrow> form_row \<Rightarrow> sqlite_error \<times> connection + connection" where
  "write_form conn row =
     (case storage_write conn of
        Inl e \<Rightarrow> Inl (e, conn)
      | Inr conn' \<Rightarrow>
          Inr (conn'\<lparr>pending := (pending conn')
                 \<lparr>forms_table := insert_or_ignore_form (forms_table (pending conn')) row\<rparr>\<rparr>))"

definition write_concept :: "connection \<Rightarrow> concept_row \<Rightarrow> sqlite_error \<times> connection + connection" where
  "write_concept conn row =
     (case storage_write conn of
        Inl e \<Rightarrow> Inl (e, conn)
      | Inr conn' \<Rightarrow>
          (case insert_concept (concepts_table (pending conn')) row of
             Inl e \<Rightarrow> Inl (Integrity e, conn')
           | Inr table \<Rightarrow> Inr (conn'\<lparr>pending := (pending conn')\<lparr>concepts_table := table\<rparr>\<rparr>)))"

definition write_sense :: "connection \<Rightarrow> sense_row \<Rightarrow> sqlite_error \<times> connection + connection" where
  "write_sense conn row =
     (case storage_write conn of
        Inl e \<Rightarrow> Inl (e, conn)
      | Inr conn' \<Rightarrow>
          Inr (conn'\<lparr>pending := (pending conn')
                 \<lparr>senses_table := insert_or_ignore_sense (senses_table (pending conn')) row\<rparr>\<rparr>))"

text \<open>\<open>COMMIT\<close>\<close>

definition commit :: "connection \<Rightarrow> sqlite_error \<times> connection + connection" where
  "commit conn =
     (case storage_write conn of
        Inl e \<Rightarrow> Inl (e, conn)
      | Inr conn' \<Rightarrow> Inr (conn'\<lparr>committed := pending conn'\<rparr>))"

text \<open>\<open>executemany\<close>: the rows in their order, up to the first exception.\<close>

fun write_rows :: "(connection \<Rightarrow> 'r \<Rightarrow> sqlite_error \<times> connection + connection) \<Rightarrow> connection \<Rightarrow> 'r list
    \<Rightarrow> sqlite_error \<times> connection + connection" where
  "write_rows stmt conn [] = Inr conn"
| "write_rows stmt conn (row # rows) =
     (case stmt conn row of
        Inl failure \<Rightarrow> Inl failure
      | Inr conn' \<Rightarrow> write_rows stmt conn' rows)"

text \<open>The statements from \<open>BEGIN TRANSACTION\<close> to \<open>COMMIT\<close>, in the order of the source.\<close>

definition transaction :: "builder \<Rightarrow> connection \<Rightarrow> sqlite_error \<times> connection + connection" where
  "transaction b conn =
     (case write_rows write_lemma conn (lemma_rows b) of
        Inl failure \<Rightarrow> Inl failure
      | Inr conn1 \<Rightarrow>
          (case write_rows write_form conn1 (form_rows b) of
             Inl failure \<Rightarrow> Inl failure
           | Inr conn2 \<Rightarrow>
               (case write_rows write_concept conn2 (concept_rows b) of
                  Inl failure \<Rightarrow> Inl failure
                | Inr conn3 \<Rightarrow>
                    (case write_rows write_sense conn3 (senses b) of
                       Inl failure \<Rightarrow> Inl failure
                     | Inr conn4 \<Rightarrow> commit conn4))))"

text \<open>
  \<open>create_concepts_db\<close> with a storage that accepts \<open>fault\<close> writes of the transaction
  and then fails. As before, an existing file is unlinked first and the file with its
  empty tables is created outside the transaction. The result is the exception, if any,
  and the tables in the file when the function is left.
\<close>

definition create_concepts_db_io :: "nat option \<Rightarrow> builder \<Rightarrow> store option \<Rightarrow> sqlite_error option \<times> store option" where
  "create_concepts_db_io fault b existing =
     (let unlinked = (if existing \<noteq> None then None else existing);
          created = (case unlinked of None \<Rightarrow> empty_store | Some s \<Rightarrow> s);
          conn = \<lparr>committed = created, pending = created, writes_left = fault\<rparr>
      in case transaction b conn of
           Inl (e, conn') \<Rightarrow> (Some e, Some (committed conn'))
         | Inr conn' \<Rightarrow> (None, Some (committed conn')))"

section \<open>Facts about the string operations\<close>

lemma split_on_nonempty: "split_on sep s \<noteq> []"
  by (induction s) (auto split: list.splits)

lemma hd_split_on_takeWhile: "hd (split_on sep s) = takeWhile (\<lambda>c. c \<noteq> sep) s"
  by (induction s) (auto split: list.splits simp: split_on_nonempty)

lemma set_last_split_on: "set (last (split_on sep s)) \<subseteq> set s"
  by (induction s) (auto split: list.splits if_splits simp: split_on_nonempty)

lemma set_strip: "set (strip s) \<subseteq> set s"
  unfolding strip_def by (auto dest!: set_dropWhileD)

lemma last_dropWhile_ne: "dropWhile P xs \<noteq> [] \<Longrightarrow> last (dropWhile P xs) = last xs"
  by (induction xs) (auto split: if_splits)

lemma strip_fix: "s = [] \<or> (\<not> isspace (hd s) \<and> \<not> isspace (last s)) \<Longrightarrow> strip s = s"
proof (cases "s = []")
  case True then show ?thesis by (simp add: strip_def)
next
  case False
  assume "s = [] \<or> (\<not> isspace (hd s) \<and> \<not> isspace (last s))"
  with False have h: "\<not> isspace (hd s)" and l: "\<not> isspace (last s)" by auto
  from h have a: "dropWhile isspace s = s" by (simp add: dropWhile_eq_self_iff)
  from l False have b: "dropWhile isspace (rev s) = rev s"
    by (simp add: dropWhile_eq_self_iff hd_rev)
  show ?thesis by (simp add: strip_def a b)
qed

lemma strip_shape: "strip s = [] \<or> (\<not> isspace (hd (strip s)) \<and> \<not> isspace (last (strip s)))"
proof (cases "strip s = []")
  case True then show ?thesis by simp
next
  case False
  define u where "u = dropWhile isspace s"
  define w where "w = dropWhile isspace (rev u)"
  have sw: "strip s = rev w" by (simp add: strip_def u_def w_def)
  from False have wne: "w \<noteq> []" by (simp add: sw)
  then have une: "u \<noteq> []" by (auto simp: w_def)
  have "\<not> isspace (hd w)" using wne unfolding w_def by (rule hd_dropWhile)
  moreover have "last w = last (rev u)" using wne unfolding w_def by (rule last_dropWhile_ne)
  moreover have "\<not> isspace (hd u)" using une unfolding u_def by (rule hd_dropWhile)
  ultimately show ?thesis using wne une by (simp add: sw hd_rev last_rev)
qed

lemma strip_idem: "strip (strip s) = strip s"
  by (rule strip_fix) (rule strip_shape)

lemma of_char_less_256: "(of_char c :: nat) < 256"
  by (cases c) simp

lemma isspace_lower_char: "isspace (lower_char c) = isspace c"
  using of_char_less_256 [of c]
  by (auto simp: isspace_def lower_char_def Let_def)

lemma lower_char_idem: "lower_char (lower_char c) = lower_char c"
  using of_char_less_256 [of c]
  by (auto simp: lower_char_def Let_def)

lemma lower_char_eq_iff:
  assumes "(of_char d :: nat) < 65"
  shows "lower_char c = d \<longleftrightarrow> c = d"
  using of_char_less_256 [of c] assms
  by (auto simp: lower_char_def Let_def char_of_eq_iff take_bit_nat_eq_self)

lemma lower_strip: "lower (strip s) = strip (lower s)"
proof -
  have pf: "isspace \<circ> lower_char = isspace"
    by (simp add: fun_eq_iff isspace_lower_char)
  show ?thesis
    by (simp add: lower_def strip_def rev_map dropWhile_map pf)
qed

lemma lower_idem: "lower (lower s) = lower s"
  by (simp add: lower_def lower_char_idem)

lemma mem_lower_iff:
  assumes "(of_char d :: nat) < 65"
  shows "d \<in> set (lower s) \<longleftrightarrow> d \<in> set s"
proof -
  have "(d = lower_char c) = (c = d)" for c
    using lower_char_eq_iff [OF assms, of c] by auto
  then show ?thesis by (auto simp: lower_def image_iff)
qed

lemma sep_notin_hd_split_on: "sep \<notin> set (hd (split_on sep s))"
  by (auto simp: hd_split_on_takeWhile dest: set_takeWhileD)

lemma set_hd_split_on: "set (hd (split_on sep s)) \<subseteq> set s"
  by (auto simp: hd_split_on_takeWhile dest: set_takeWhileD)

lemma set_jargon_loop: "set (jargon_loop ps t) \<subseteq> set t"
  using set_strip set_last_split_on
  by (induction ps) (auto, blast)

lemma set_separator_loop: "set (separator_loop seps t) \<subseteq> set t"
  using set_strip set_hd_split_on
  by (induction seps) (auto, blast)

lemma jargon_loop_no_comma: "CHR '','' \<notin> set t \<Longrightarrow> jargon_loop ps t = t"
  by (induction ps) auto

lemma separator_loop_no_sep: "set seps \<inter> set t = {} \<Longrightarrow> separator_loop seps t = t"
  by (induction seps) auto

lemma comma_notin_separator_loop: "CHR '','' \<notin> set (separator_loop separators t)"
  using set_strip [of "hd (split_on CHR '','' t)"] sep_notin_hd_split_on [of "CHR '',''" t]
    set_separator_loop [of "[CHR '';'', CHR ''/'']" t]
  by (auto simp: separators_def)

lemma extract_english_lemma_fix:
  assumes "strip r = r" "lower r = r" "\<not> startswith r ''to ''"
    "CHR ''('' \<notin> set r" "CHR '','' \<notin> set r" "CHR '';'' \<notin> set r" "CHR ''/'' \<notin> set r"
  shows "extract_english_lemma r = r"
  using assms
  by (simp add: extract_english_lemma_def jargon_loop_no_comma separator_loop_no_sep separators_def)

lemma extract_english_lemma_shape:
  "strip (extract_english_lemma s) = extract_english_lemma s \<and>
   lower (extract_english_lemma s) = extract_english_lemma s \<and>
   CHR ''('' \<notin> set (extract_english_lemma s) \<and>
   CHR '','' \<notin> set (extract_english_lemma s)"
proof -
  define t1 where "t1 = (if startswith s ''to '' then drop 3 s else s)"
  define t2 where "t2 = (if CHR ''('' \<in> set t1 then strip (hd (split_on CHR ''('' t1)) else t1)"
  define t3 where "t3 = jargon_loop jargon_patterns t2"
  define t4 where "t4 = separator_loop separators t3"
  have r: "extract_english_lemma s = strip (lower t4)"
    by (simp add: extract_english_lemma_def t1_def t2_def t3_def t4_def)
  have "CHR ''('' \<notin> set t2"
    using set_strip [of "hd (split_on CHR ''('' t1)"] sep_notin_hd_split_on [of "CHR ''(''" t1]
    by (auto simp: t2_def)
  then have "CHR ''('' \<notin> set t3"
    using set_jargon_loop [of jargon_patterns t2] by (auto simp: t3_def)
  then have "CHR ''('' \<notin> set t4"
    using set_separator_loop [of separators t3] by (auto simp: t4_def)
  then have "CHR ''('' \<notin> set (lower t4)"
    by (simp add: mem_lower_iff)
  then have paren: "CHR ''('' \<notin> set (strip (lower t4))"
    using set_strip [of "lower t4"] by auto
  have "CHR '','' \<notin> set t4"
    unfolding t4_def by (rule comma_notin_separator_loop)
  then have "CHR '','' \<notin> set (lower t4)"
    by (simp add: mem_lower_iff)
  then have comma: "CHR '','' \<notin> set (strip (lower t4))"
    using set_strip [of "lower t4"] by auto
  have "lower (strip (lower t4)) = strip (lower t4)"
    by (simp add: lower_strip lower_idem)
  with paren comma show ?thesis
    by (simp add: r strip_idem)
qed

section \<open>The canonicalizer\<close>

lemma length_strip_le: "length (strip s) \<le> length s"
proof -
  have "length (dropWhile isspace (rev (dropWhile isspace s))) \<le> length (rev (dropWhile isspace s))"
    by (rule length_dropWhile_le)
  also have "\<dots> \<le> length s"
    by (simp add: length_dropWhile_le)
  finally show ?thesis by (simp add: strip_def)
qed

lemma length_hd_split_on_le: "length (hd (split_on sep s)) \<le> length s"
  by (simp add: hd_split_on_takeWhile length_takeWhile_le)

lemma length_hd_split_on_less: "sep \<in> set s \<Longrightarrow> length (hd (split_on sep s)) < length s"
  unfolding hd_split_on_takeWhile
  by (induction s) auto

lemma length_last_split_on_le: "length (last (split_on sep s)) \<le> length s"
  by (induction s) (auto split: list.splits simp: split_on_nonempty)

lemma length_jargon_loop_le: "length (jargon_loop ps t) \<le> length t"
proof (induction ps)
  case Nil
  then show ?case by simp
next
  case (Cons p ps)
  have "length (strip (last (split_on CHR '','' t))) \<le> length t"
    using length_strip_le [of "last (split_on CHR '','' t)"] length_last_split_on_le [of "CHR '',''" t]
    by simp
  with Cons show ?case by simp
qed

lemma length_separator_loop_le: "length (separator_loop seps t) \<le> length t"
proof (induction seps)
  case Nil
  then show ?case by simp
next
  case (Cons sep seps)
  have "length (strip (hd (split_on sep t))) \<le> length t"
    using length_strip_le [of "hd (split_on sep t)"] length_hd_split_on_le [of sep t]
    by simp
  with Cons show ?case by simp
qed

lemma length_separator_loop_less:
  "set seps \<inter> set t \<noteq> {} \<Longrightarrow> length (separator_loop seps t) < length t"
proof (induction seps)
  case Nil
  then show ?case by simp
next
  case (Cons sep seps)
  show ?case
  proof (cases "sep \<in> set t")
    case True
    then have "length (strip (hd (split_on sep t))) < length t"
      using length_strip_le [of "hd (split_on sep t)"] length_hd_split_on_less [of sep t]
      by simp
    with True show ?thesis by simp
  next
    case False
    with Cons show ?thesis by simp
  qed
qed

lemma length_extract_english_lemma_le: "length (extract_english_lemma s) \<le> length s"
proof -
  define t1 where "t1 = (if startswith s ''to '' then drop 3 s else s)"
  define t2 where "t2 = (if CHR ''('' \<in> set t1 then strip (hd (split_on CHR ''('' t1)) else t1)"
  define t3 where "t3 = jargon_loop jargon_patterns t2"
  define t4 where "t4 = separator_loop separators t3"
  have r: "extract_english_lemma s = strip (lower t4)"
    by (simp add: extract_english_lemma_def t1_def t2_def t3_def t4_def)
  have "length (strip (lower t4)) \<le> length t4"
    using length_strip_le [of "lower t4"] by (simp add: lower_def)
  also have "\<dots> \<le> length t3"
    unfolding t4_def by (rule length_separator_loop_le)
  also have "\<dots> \<le> length t2"
    unfolding t3_def by (rule length_jargon_loop_le)
  also have "\<dots> \<le> length t1"
    using length_strip_le [of "hd (split_on CHR ''('' t1)"] length_hd_split_on_le [of "CHR ''(''" t1]
    by (simp add: t2_def)
  also have "\<dots> \<le> length s"
    by (simp add: t1_def)
  finally show ?thesis by (simp add: r)
qed

lemma extract_english_lemma_shorter:
  assumes "startswith r ''to '' \<or>
           (CHR ''('' \<notin> set r \<and> CHR '','' \<notin> set r \<and> (CHR '';'' \<in> set r \<or> CHR ''/'' \<in> set r))"
  shows "length (extract_english_lemma r) < length r"
proof (cases "startswith r ''to ''")
  case True
  then have "length r \<ge> 3"
    by (auto simp: startswith_def dest!: arg_cong [where f = length])
  then have "length (drop 3 r) < length r" by simp
  moreover have "length (extract_english_lemma r) \<le> length (drop 3 r)"
  proof -
    define t1 where "t1 = drop 3 r"
    define t2 where "t2 = (if CHR ''('' \<in> set t1 then strip (hd (split_on CHR ''('' t1)) else t1)"
    define t3 where "t3 = jargon_loop jargon_patterns t2"
    define t4 where "t4 = separator_loop separators t3"
    have r: "extract_english_lemma r = strip (lower t4)"
      using True by (simp add: extract_english_lemma_def t1_def t2_def t3_def t4_def)
    have "length (strip (lower t4)) \<le> length t4"
      using length_strip_le [of "lower t4"] by (simp add: lower_def)
    also have "\<dots> \<le> length t3"
      unfolding t4_def by (rule length_separator_loop_le)
    also have "\<dots> \<le> length t2"
      unfolding t3_def by (rule length_jargon_loop_le)
    also have "\<dots> \<le> length t1"
      using length_strip_le [of "hd (split_on CHR ''('' t1)"] length_hd_split_on_le [of "CHR ''(''" t1]
      by (simp add: t2_def)
    finally show ?thesis by (simp add: r t1_def)
  qed
  ultimately show ?thesis by auto
next
  case False
  with assms have a: "CHR ''('' \<notin> set r" "CHR '','' \<notin> set r"
    "CHR '';'' \<in> set r \<or> CHR ''/'' \<in> set r" by auto
  have r: "extract_english_lemma r = strip (lower (separator_loop separators r))"
    using False a by (simp add: extract_english_lemma_def jargon_loop_no_comma)
  have "set separators \<inter> set r \<noteq> {}"
    using a(3) by (auto simp: separators_def)
  then have "length (separator_loop separators r) < length r"
    by (rule length_separator_loop_less)
  moreover have "length (strip (lower (separator_loop separators r)))
                 \<le> length (separator_loop separators r)"
    using length_strip_le [of "lower (separator_loop separators r)"] by (simp add: lower_def)
  ultimately show ?thesis by (simp add: r)
qed

text \<open>
  The canonical forms that canonicalize to themselves are exactly those that do not
  start with "to " and contain neither a semicolon nor a slash.
\<close>

lemma extract_english_lemma_idempotent_iff:
  "extract_english_lemma (extract_english_lemma s) = extract_english_lemma s \<longleftrightarrow>
   \<not> startswith (extract_english_lemma s) ''to '' \<and>
   CHR '';'' \<notin> set (extract_english_lemma s) \<and> CHR ''/'' \<notin> set (extract_english_lemma s)"
proof
  assume eq: "extract_english_lemma (extract_english_lemma s) = extract_english_lemma s"
  show "\<not> startswith (extract_english_lemma s) ''to '' \<and>
        CHR '';'' \<notin> set (extract_english_lemma s) \<and> CHR ''/'' \<notin> set (extract_english_lemma s)"
  proof (rule ccontr)
    assume "\<not> ?thesis"
    then have "length (extract_english_lemma (extract_english_lemma s))
               < length (extract_english_lemma s)"
      using extract_english_lemma_shape [of s] by (intro extract_english_lemma_shorter) auto
    with eq show False by simp
  qed
next
  assume "\<not> startswith (extract_english_lemma s) ''to '' \<and>
        CHR '';'' \<notin> set (extract_english_lemma s) \<and> CHR ''/'' \<notin> set (extract_english_lemma s)"
  then show "extract_english_lemma (extract_english_lemma s) = extract_english_lemma s"
    using extract_english_lemma_shape [of s]
    by (intro extract_english_lemma_fix) simp_all
qed

text \<open>
  Claim C5. The canonicalizer maps "to be (copula)" to "be", "hello, hi, hey" to
  "hello", "apocopic form of m\<open>U+00ED\<close>o, my" to "my", and
  "greetings; hello (general salutation)" to "greetings".
\<close>

theorem extract_english_lemma_examples:
  "extract_english_lemma ''to be (copula)'' = ''be'' \<and>
   extract_english_lemma ''hello, hi, hey'' = ''hello'' \<and>
   extract_english_lemma (''apocopic form of m'' @ [CHR 0xED] @ ''o, my'') = ''my'' \<and>
   extract_english_lemma ''greetings; hello (general salutation)'' = ''greetings''"
  by code_simp

text \<open>
  Claim C4, as stated, fails: the prefix "to " is removed once only, so "to to be"
  becomes "to be", and "to be" becomes "be".
\<close>

theorem extract_english_lemma_not_idempotent:
  "extract_english_lemma (extract_english_lemma ''to to be'') \<noteq> extract_english_lemma ''to to be''"
  by code_simp

text \<open>
  The loop over \<open>separators\<close> cuts at the first separator of the first kind that occurs,
  not at the first separator: a semicolon or a slash before the first comma stays in the
  result, against the comment above the loop. A second application then cuts again.
\<close>

lemma separator_loop_first_kind:
  "extract_english_lemma ''dog; hound, cur'' = ''dog; hound'' \<and>
   strip (lower (documented_separator_cut (before_separators ''dog; hound, cur''))) = ''dog'' \<and>
   extract_english_lemma (extract_english_lemma ''dog; hound, cur'') = ''dog''"
  by code_simp

lemma extract_english_lemma_before_separators:
  "extract_english_lemma s = strip (lower (separator_loop separators (before_separators s)))"
  by (simp add: extract_english_lemma_def before_separators_def Let_def)

lemma documented_separator_cut_no_separator:
  "sep \<in> set separators \<Longrightarrow> sep \<notin> set (documented_separator_cut t)"
proof (cases "list_ex (\<lambda>sep. sep \<in> set t) separators")
  case True
  assume sep: "sep \<in> set separators"
  have "sep \<notin> set (takeWhile (\<lambda>c. c \<notin> set separators) t)"
    using sep by (auto dest: set_takeWhileD)
  then have "sep \<notin> set (strip (takeWhile (\<lambda>c. c \<notin> set separators) t))"
    using set_strip [of "takeWhile (\<lambda>c. c \<notin> set separators) t"] by auto
  with True show ?thesis by (simp add: documented_separator_cut_def)
next
  case False
  assume "sep \<in> set separators"
  with False show ?thesis by (auto simp: documented_separator_cut_def list_ex_iff)
qed

text \<open>
  Claim C4, amended. Canonicalizing twice gives the same as canonicalizing once for
  every gloss whose canonical form does not start with "to ", among the glosses on
  which the loop over the separators cuts at the first comma, semicolon or slash, as its
  comment says. The other glosses are left out.
\<close>

theorem extract_english_lemma_idempotent_when:
  assumes "separator_loop separators (before_separators s)
             = documented_separator_cut (before_separators s)"
    and "\<not> startswith (extract_english_lemma s) ''to ''"
  shows "extract_english_lemma (extract_english_lemma s) = extract_english_lemma s"
proof -
  let ?t = "documented_separator_cut (before_separators s)"
  have r: "extract_english_lemma s = strip (lower ?t)"
    by (simp add: extract_english_lemma_before_separators assms(1))
  have "CHR '';'' \<notin> set ?t" "CHR ''/'' \<notin> set ?t"
    by (rule documented_separator_cut_no_separator, simp add: separators_def)+
  then have "CHR '';'' \<notin> set (lower ?t)" "CHR ''/'' \<notin> set (lower ?t)"
    by (simp_all add: mem_lower_iff)
  then have "CHR '';'' \<notin> set (extract_english_lemma s)" "CHR ''/'' \<notin> set (extract_english_lemma s)"
    unfolding r using set_strip [of "lower ?t"] by auto
  with assms(2) extract_english_lemma_shape [of s] show ?thesis
    by (intro extract_english_lemma_fix) simp_all
qed

theorem extract_english_lemma_idempotent_when_witness:
  "separator_loop separators (before_separators ''hello, hi; hey'')
     = documented_separator_cut (before_separators ''hello, hi; hey'') \<and>
   \<not> startswith (extract_english_lemma ''hello, hi; hey'') ''to '' \<and>
   extract_english_lemma ''hello, hi; hey'' = ''hello'' \<and>
   extract_english_lemma (extract_english_lemma ''hello, hi; hey'')
     = extract_english_lemma ''hello, hi; hey''"
proof -
  have a: "separator_loop separators (before_separators ''hello, hi; hey'')
             = documented_separator_cut (before_separators ''hello, hi; hey'')"
    by code_simp
  have e: "extract_english_lemma ''hello, hi; hey'' = ''hello''"
    by code_simp
  have b: "\<not> startswith (extract_english_lemma ''hello, hi; hey'') ''to ''"
    unfolding e by (simp add: startswith_def)
  from a b e extract_english_lemma_idempotent_when [OF a b] show ?thesis
    by blast
qed

section \<open>The iteration of a pattern reaches a fixed point\<close>

text \<open>
  A set of positions of \<open>s\<close> keeps its length under every pattern, and the rounds
  that \<open>Star\<close> and \<open>Plus\<close> are given are enough: the result of \<open>Star r\<close> is closed
  under one more match of \<open>r\<close>.
\<close>

lemma length_step_class: "length (step_class cls s P) = Suc (min (length s) (length P))"
  by (simp add: step_class_def)

lemma length_step_lit:
  "length P = Suc (length s) \<Longrightarrow> length (step_lit w s P) = Suc (length s)"
  by (induction w arbitrary: P) (simp_all add: length_step_class)

lemma length_at_bol: "length (at_bol P) = length P"
  by (cases P) simp_all

lemma length_at_eol: "length P = Suc (length s) \<Longrightarrow> length (at_eol s P) = Suc (length s)"
  by (induction s P rule: at_eol.induct) simp_all

lemma length_at_wb: "length P = Suc (length s) \<Longrightarrow> length (at_wb s prev P) = Suc (length s)"
  by (induction s prev P rule: at_wb.induct) simp_all

lemma length_star_iter:
  "(\<And>P. length P = m \<Longrightarrow> length (f P) = m) \<Longrightarrow> length P = m \<Longrightarrow>
   length (star_iter k f P) = m"
  by (induction k arbitrary: P) (simp_all add: Let_def)

lemma length_run: "length P = Suc (length s) \<Longrightarrow> length (run r s P) = Suc (length s)"
proof (induction r arbitrary: P)
  case (Plus r)
  show ?case
    unfolding run.simps by (rule length_star_iter) (simp_all add: Plus)
next
  case (Star r)
  show ?case
    unfolding run.simps by (rule length_star_iter) (simp_all add: Star)
qed (simp_all add: length_step_lit length_step_class length_at_bol length_at_eol length_at_wb)

lemma npos_le_length: "npos P \<le> length P"
  by (induction P) auto

lemma npos_or_le: "length P = length R \<Longrightarrow> npos P \<le> npos (map2 (\<or>) P R)"
  by (induction P R rule: list_induct2) auto

lemma npos_or_less:
  "length P = length R \<Longrightarrow> map2 (\<or>) P R \<noteq> P \<Longrightarrow> npos P < npos (map2 (\<or>) P R)"
proof (induction P R rule: list_induct2)
  case Nil
  then show ?case by simp
next
  case (Cons p P r R)
  show ?case
  proof (cases "map2 (\<or>) P R = P")
    case True
    with Cons.prems show ?thesis by auto
  next
    case False
    then have "npos P < npos (map2 (\<or>) P R)"
      by (rule Cons.IH)
    then show ?thesis by auto
  qed
qed

lemma all_positions_or:
  "npos P = length P \<Longrightarrow> length R = length P \<Longrightarrow> map2 (\<or>) P R = P"
proof (induction P arbitrary: R)
  case Nil
  then show ?case by simp
next
  case (Cons p P)
  obtain r R' where R: "R = r # R'" using Cons.prems(2) by (cases R) auto
  have "npos P \<le> length P" by (rule npos_le_length)
  with Cons.prems(1) have p: "p" "npos P = length P"
    by (auto split: if_splits)
  with Cons.IH [of R'] Cons.prems(2) show ?case by (simp add: R)
qed

lemma star_iter_closed:
  assumes "\<And>P. length P = m \<Longrightarrow> length (f P) = m"
    and "length P = m" and "m \<le> k + npos P"
  shows "map2 (\<or>) (star_iter k f P) (f (star_iter k f P)) = star_iter k f P"
  using assms(2,3)
proof (induction k arbitrary: P)
  case 0
  have "npos P \<le> length P" by (rule npos_le_length)
  with 0 have "npos P = length P" by simp
  then show ?case using 0 assms(1) by (simp add: all_positions_or)
next
  case (Suc k)
  let ?Q = "map2 (\<or>) P (f P)"
  show ?case
  proof (cases "?Q = P")
    case True
    then show ?thesis by (simp add: Let_def)
  next
    case False
    have len: "length ?Q = m" using Suc.prems(1) assms(1) by simp
    have "npos P < npos ?Q"
      using False Suc.prems(1) assms(1) by (intro npos_or_less) simp_all
    with Suc.prems(2) have "m \<le> k + npos ?Q" by simp
    with len have "map2 (\<or>) (star_iter k f ?Q) (f (star_iter k f ?Q)) = star_iter k f ?Q"
      by (rule Suc.IH)
    with False show ?thesis by (simp add: Let_def)
  qed
qed

lemma run_Star_closed:
  assumes "length P = Suc (length s)"
  shows "map2 (\<or>) (run (Star r) s P) (run r s (run (Star r) s P)) = run (Star r) s P"
  unfolding run.simps
  by (rule star_iter_closed [where m = "Suc (length s)"]) (simp_all add: length_run assms)

section \<open>The gloss classifier on the documented examples\<close>

text \<open>
  The classifier of \<open>build_translations.py\<close> on the three examples: the first is an
  inflection reference, the second is technical, the third is neither.
\<close>

lemma build_translations_classifier_examples:
  "is_inflected_form_definition
     (''third-person plural future indicative of mu'' @ [CHR 0xF1] @ ''ir'') \<and>
   is_technical_definition ''a city in Lombardy'' None \<and>
   \<not> is_inflected_form_definition ''first-person singular pronoun; I'' \<and>
   \<not> is_technical_definition ''first-person singular pronoun; I'' None"
  by code_simp

text \<open>
  The classifier of \<open>build_translations_bidirectional.py\<close> agrees on the first two
  examples.
\<close>

lemma bidirectional_classifier_examples:
  "is_inflected_form_definition_bidirectional
     (''third-person plural future indicative of mu'' @ [CHR 0xF1] @ ''ir'') \<and>
   is_technical_definition ''a city in Lombardy'' (Some [])"
  by code_simp

text \<open>
  Claim C6 fails in \<open>build_translations_bidirectional.py\<close>: its inflection predicate is
  true on "first-person singular pronoun; I", the gloss that its own documentation
  lists as one to keep. The gloss starts with "first-person singular", which the
  seventh pattern of \<open>german_inflection_patterns\<close> matches.
\<close>

theorem is_inflected_form_definition_bidirectional_pronoun:
  "is_inflected_form_definition_bidirectional ''first-person singular pronoun; I''"
  by code_simp

section \<open>Mirroring\<close>

lemma fold_snoc_map: "fold (\<lambda>x acc. acc @ [f x]) xs ys = ys @ map f xs"
  by (induction xs arbitrary: ys) simp_all

lemma reverse_translations_map:
  "reverse_translations ts = map (\<lambda>(a, b, c, d). (c, d, a, b)) ts"
proof -
  have swap: "(\<lambda>(lemma_from, lang_from, translation, lang_to) reversed_trans.
             reversed_trans @ [(translation, lang_to, lemma_from, lang_from)])
        = (\<lambda>x acc. acc @ [(\<lambda>(a, b, c, d). (c, d, a, b)) x])"
    by (simp add: fun_eq_iff split: prod.splits)
  show ?thesis
    unfolding reverse_translations_def swap
    by (simp only: fold_snoc_map append_Nil)
qed

lemma length_reverse_translations: "length (reverse_translations ts) = length ts"
  by (simp add: reverse_translations_map)

text \<open>
  Claim C10. Mirroring is an involution: mirroring the mirrored list of any list of
  4-tuple records gives the list back.
\<close>

theorem reverse_translations_involution:
  "reverse_translations (reverse_translations L) = L"
  by (simp add: reverse_translations_map comp_def case_prod_beta)

text \<open>
  Claim C7. When one direction has fewer than 10,000 records and the other more than
  100,000, the sparse direction becomes its own records followed by the mirror image
  of every record of the rich direction and the rich direction is unchanged (500 and
  150,000 records give 150,500); two directions of 50,000 records each are both
  unchanged; and in every case at least one of the two directions is unchanged.
\<close>

theorem augment_sparse_spec:
  "(length t1 < 10000 \<and> length t2 > 100000 \<longrightarrow>
      augment_sparse t1 t2 = (t1 @ map (\<lambda>(lemma_from, lang_from, translation, lang_to).
                                          (translation, lang_to, lemma_from, lang_from)) t2, t2)) \<and>
   (length t2 < 10000 \<and> length t1 > 100000 \<longrightarrow>
      augment_sparse t1 t2 = (t1, t2 @ map (\<lambda>(lemma_from, lang_from, translation, lang_to).
                                          (translation, lang_to, lemma_from, lang_from)) t1)) \<and>
   (length t1 = 500 \<and> length t2 = 150000 \<longrightarrow>
      length (fst (augment_sparse t1 t2)) = 150500 \<and> snd (augment_sparse t1 t2) = t2) \<and>
   (length t1 = 50000 \<and> length t2 = 50000 \<longrightarrow> augment_sparse t1 t2 = (t1, t2)) \<and>
   (fst (augment_sparse t1 t2) = t1 \<or> snd (augment_sparse t1 t2) = t2)"
  by (simp add: augment_sparse_def SPARSE_THRESHOLD_def RICH_THRESHOLD_def
        reverse_translations_map Let_def)

theorem augment_sparse_spec_witness:
  "length (replicate 500 (''perro'', ''es'', ''dog'', ''en'')) < 10000 \<and>
   length (replicate 150000 (''dog'', ''en'', ''perro'', ''es'')) > 100000 \<and>
   augment_sparse (replicate 500 (''perro'', ''es'', ''dog'', ''en''))
                  (replicate 150000 (''dog'', ''en'', ''perro'', ''es''))
     = (replicate 500 (''perro'', ''es'', ''dog'', ''en'')
          @ map (\<lambda>(lemma_from, lang_from, translation, lang_to).
                   (translation, lang_to, lemma_from, lang_from))
                (replicate 150000 (''dog'', ''en'', ''perro'', ''es'')),
        replicate 150000 (''dog'', ''en'', ''perro'', ''es'')) \<and>
   length (fst (augment_sparse (replicate 500 (''perro'', ''es'', ''dog'', ''en''))
                  (replicate 150000 (''dog'', ''en'', ''perro'', ''es'')))) = 150500 \<and>
   length (replicate 50000 (''perro'', ''es'', ''dog'', ''en'')) = 50000 \<and>
   augment_sparse (replicate 50000 (''perro'', ''es'', ''dog'', ''en''))
                  (replicate 50000 (''dog'', ''en'', ''perro'', ''es''))
     = (replicate 50000 (''perro'', ''es'', ''dog'', ''en''),
        replicate 50000 (''dog'', ''en'', ''perro'', ''es''))"
  using augment_sparse_spec [of "replicate 500 (''perro'', ''es'', ''dog'', ''en'')"
                                "replicate 150000 (''dog'', ''en'', ''perro'', ''es'')"]
        augment_sparse_spec [of "replicate 50000 (''perro'', ''es'', ''dog'', ''en'')"
                                "replicate 50000 (''dog'', ''en'', ''perro'', ''es'')"]
  by simp

section \<open>The concept clusterer\<close>

subsection \<open>Dictionaries\<close>

lemma map_of_dict_set: "map_of (dict_set d k v) = (map_of d)(k \<mapsto> v)"
  by (induction d) (auto simp: fun_eq_iff)

lemma dict_set_new: "map_of d k = None \<Longrightarrow> dict_set d k v = d @ [(k, v)]"
  by (induction d) (auto split: if_splits)

lemma set_dict_set: "set (dict_set d k v) \<subseteq> insert (k, v) (set d)"
  by (induction d) (auto split: if_splits)

lemma keys_dict_set: "fst ` set (dict_set d k v) = insert k (fst ` set d)"
  by (simp add: map_of_dict_set flip: dom_map_of_conv_image_fst)

lemma distinct_dict_set: "distinct (map fst d) \<Longrightarrow> distinct (map fst (dict_set d k v))"
  by (induction d) (auto simp: keys_dict_set)

subsection \<open>Identifiers of lemmas\<close>

lemma lemma_of_id_mem:
  "distinct (map snd ls) \<Longrightarrow> (k, i) \<in> set ls \<Longrightarrow> lemma_of_id ls i = Some k"
  by (induction ls) (auto simp: lemma_of_id_def rev_image_eqI)

lemma lemma_of_id_append_old:
  "i \<in> snd ` set ls \<Longrightarrow> lemma_of_id (ls @ ls') i = lemma_of_id ls i"
  by (induction ls) (auto simp: lemma_of_id_def)

lemma lemma_of_id_append_new:
  "i \<notin> snd ` set ls \<Longrightarrow> lemma_of_id (ls @ [(k, i)]) i = Some k"
  by (induction ls) (auto simp: lemma_of_id_def)

lemma lemma_of_id_append_None:
  "lemma_of_id ls i = None \<Longrightarrow> j \<noteq> i \<Longrightarrow> lemma_of_id (ls @ [(k, j)]) i = None"
  by (induction ls) (auto simp: lemma_of_id_def split: if_splits)

lemma lemma_of_id_None_iff: "lemma_of_id ls i = None \<longleftrightarrow> i \<notin> snd ` set ls"
  by (induction ls) (auto simp: lemma_of_id_def)

lemma lemma_of_id_snoc_below:
  assumes "list_all (\<lambda>(k, i). i < n) ls" "i < n"
  shows "lemma_of_id (ls @ [(k, n)]) i = lemma_of_id ls i"
proof (cases "i \<in> snd ` set ls")
  case True then show ?thesis by (rule lemma_of_id_append_old)
next
  case False
  then have "lemma_of_id ls i = None" by (simp add: lemma_of_id_None_iff)
  with assms show ?thesis by (simp add: lemma_of_id_append_None)
qed

lemma add_sense_effect:
  assumes "wf_builder st" "senses_ok st"
  shows "wf_builder (add_sense c st (k, r)) \<and> senses_ok (add_sense c st (k, r)) \<and>
         keyed_senses (add_sense c st (k, r)) = keyed_senses st @ [(Some k, c, r)] \<and>
         concepts (add_sense c st (k, r)) = concepts st \<and>
         next_concept_id (add_sense c st (k, r)) = next_concept_id st"
proof (cases "map_of (lemmas st) k")
  case None
  let ?n = "next_lemma_id st"
  have fresh: "?n \<notin> snd ` set (lemmas st)"
    using assms(1) by (auto simp: wf_builder_def list_all_iff)
  have below: "list_all (\<lambda>(k, i). i < ?n) (lemmas st)"
    using assms(1) by (simp add: wf_builder_def)
  have old: "lemma_of_id (lemmas st @ [(k, ?n)]) i = lemma_of_id (lemmas st) i" if "i < ?n" for i
    using below that by (rule lemma_of_id_snoc_below)
  have ks: "map (\<lambda>(lemma_id, concept_id, rank). (lemma_of_id (lemmas st @ [(k, ?n)]) lemma_id, concept_id, rank)) (senses st)
            = keyed_senses st"
    using assms(2) unfolding keyed_senses_def senses_ok_def
    by (auto simp: list_all_iff old)
  show ?thesis
    using None assms fresh ks
    by (auto simp: add_sense_def lemma_id_for_def dict_set_new wf_builder_def senses_ok_def
          keyed_senses_def lemma_of_id_append_new list_all_iff less_Suc_eq)
next
  case (Some i)
  then have "(k, i) \<in> set (lemmas st)" by (rule map_of_SomeD)
  then have "lemma_of_id (lemmas st) i = Some k" "i < next_lemma_id st"
    using assms(1) by (auto simp: wf_builder_def lemma_of_id_mem list_all_iff)
  then show ?thesis
    using Some assms
    by (auto simp: add_sense_def lemma_id_for_def wf_builder_def senses_ok_def keyed_senses_def)
qed

subsection \<open>Adding the senses of a concept\<close>

lemma extends_refl: "wf_builder st \<Longrightarrow> senses_ok st \<Longrightarrow> extends c st st []"
  by (simp add: extends_def)

lemma extends_trans: "extends c st st' xs \<Longrightarrow> extends c st' st'' ys \<Longrightarrow> extends c st st'' (xs @ ys)"
  by (simp add: extends_def)

lemma extends_add_sense:
  "wf_builder st \<Longrightarrow> senses_ok st \<Longrightarrow> extends c st (add_sense c st (k, r)) [(k, r)]"
  using add_sense_effect [of st c k r] by (simp add: extends_def)

lemma extends_fold_add_sense:
  "wf_builder st \<Longrightarrow> senses_ok st \<Longrightarrow>
   extends c st (fold (\<lambda>kr st. add_sense c st kr) xs st) xs"
proof (induction xs arbitrary: st)
  case Nil
  then show ?case by (simp add: extends_refl)
next
  case (Cons x xs)
  obtain k r where x: "x = (k, r)" by (cases x)
  have 1: "extends c st (add_sense c st x) [x]"
    unfolding x using Cons.prems by (rule extends_add_sense)
  then have "wf_builder (add_sense c st x)" "senses_ok (add_sense c st x)"
    by (simp_all add: extends_def)
  then have 2: "extends c (add_sense c st x) (fold (\<lambda>kr st. add_sense c st kr) xs (add_sense c st x)) xs"
    by (rule Cons.IH)
  from extends_trans [OF 1 2] show ?case by simp
qed

lemma add_lang_senses_fold:
  "add_lang_senses c st g = fold (\<lambda>kr st. add_sense c st kr) (lang_senses g) st"
  by (cases g) (simp add: add_lang_senses_def lang_senses_def fold_map comp_def case_prod_unfold)

lemma extends_add_lang_senses:
  "wf_builder st \<Longrightarrow> senses_ok st \<Longrightarrow> extends c st (add_lang_senses c st g) (lang_senses g)"
  unfolding add_lang_senses_fold by (rule extends_fold_add_sense)

lemma extends_fold_add_lang_senses:
  "wf_builder st \<Longrightarrow> senses_ok st \<Longrightarrow>
   extends c st (fold (\<lambda>g st. add_lang_senses c st g) gs st) (concat (map lang_senses gs))"
proof (induction gs arbitrary: st)
  case Nil
  then show ?case by (simp add: extends_refl)
next
  case (Cons g gs)
  have 1: "extends c st (add_lang_senses c st g) (lang_senses g)"
    using Cons.prems by (rule extends_add_lang_senses)
  then have "wf_builder (add_lang_senses c st g)" "senses_ok (add_lang_senses c st g)"
    by (simp_all add: extends_def)
  then have 2: "extends c (add_lang_senses c st g)
                  (fold (\<lambda>g st. add_lang_senses c st g) gs (add_lang_senses c st g))
                  (concat (map lang_senses gs))"
    by (rule Cons.IH)
  from extends_trans [OF 1 2] show ?case by simp
qed

lemma create_concept_effect:
  assumes "wf_builder st" "senses_ok st"
  shows "wf_builder (create_concept st entry) \<and> senses_ok (create_concept st entry) \<and>
         keyed_senses (create_concept st entry)
           = keyed_senses st @ map (\<lambda>(k, r). (Some k, next_concept_id st, r)) (concept_senses entry) \<and>
         concepts (create_concept st entry) = dict_set (concepts st) (fst entry) (next_concept_id st) \<and>
         next_concept_id (create_concept st entry) = Suc (next_concept_id st)"
proof -
  obtain e p tr where entry: "entry = ((e, p), tr)" by (cases entry) auto
  let ?c = "next_concept_id st"
  define st2 where "st2 = st\<lparr>next_concept_id := Suc ?c, concepts := dict_set (concepts st) (e, p) ?c\<rparr>"
  define gs where "gs = group_by_lang (sort_key (\<lambda>((lang, lemma, lemma_pos), len). (len, lemma)) tr)"
  define st3 where "st3 = fold (\<lambda>g st. add_lang_senses ?c st g) gs st2"
  have cc: "create_concept st entry = add_sense ?c st3 ((''en'', e, p), 1)"
    by (simp add: create_concept_def entry st3_def st2_def gs_def Let_def)
  have w2: "wf_builder st2" "senses_ok st2" "keyed_senses st2 = keyed_senses st"
    using assms by (simp_all add: st2_def wf_builder_def senses_ok_def keyed_senses_def)
  have 1: "extends ?c st2 st3 (concat (map lang_senses gs))"
    unfolding st3_def using w2(1,2) by (rule extends_fold_add_lang_senses)
  then have "wf_builder st3" "senses_ok st3" by (simp_all add: extends_def)
  then have 2: "extends ?c st3 (add_sense ?c st3 ((''en'', e, p), 1)) [((''en'', e, p), 1)]"
    by (rule extends_add_sense)
  have cs: "concept_senses entry = concat (map lang_senses gs) @ [((''en'', e, p), 1)]"
    by (simp add: concept_senses_def entry gs_def)
  from extends_trans [OF 1 2] show ?thesis
    unfolding cc cs extends_def using w2(3) by (simp add: st2_def entry)
qed

lemma fold_create_concept:
  assumes "wf_builder st" "senses_ok st"
  shows "keyed_senses (fold (\<lambda>entry st. create_concept st entry) hub st)
           = keyed_senses st @ hub_senses (next_concept_id st) hub \<and>
         set (concepts (fold (\<lambda>entry st. create_concept st entry) hub st))
           \<subseteq> set (concepts st) \<union> {(fst (hub ! i), next_concept_id st + i) | i. i < length hub}"
  using assms
proof (induction hub arbitrary: st)
  case Nil
  then show ?case by simp
next
  case (Cons entry hub)
  let ?st1 = "create_concept st entry"
  note eff = create_concept_effect [OF Cons.prems, of entry]
  from eff have w: "wf_builder ?st1" "senses_ok ?st1" by simp_all
  note ih = Cons.IH [OF w]
  have k: "keyed_senses (fold (\<lambda>entry st. create_concept st entry) (entry # hub) st)
           = keyed_senses st @ hub_senses (next_concept_id st) (entry # hub)"
    using ih eff by simp
  have "set (concepts ?st1) \<subseteq> insert (fst entry, next_concept_id st) (set (concepts st))"
    using eff set_dict_set [of "concepts st" "fst entry" "next_concept_id st"] by simp
  moreover have "{(fst (hub ! i), next_concept_id ?st1 + i) | i. i < length hub}
                 \<subseteq> {(fst ((entry # hub) ! i), next_concept_id st + i) | i. i < length (entry # hub)}"
  proof
    fix x assume "x \<in> {(fst (hub ! i), next_concept_id ?st1 + i) | i. i < length hub}"
    then obtain i where "i < length hub" "x = (fst (hub ! i), next_concept_id ?st1 + i)" by auto
    then have "Suc i < length (entry # hub)" "x = (fst ((entry # hub) ! Suc i), next_concept_id st + Suc i)"
      using eff by simp_all
    then show "x \<in> {(fst ((entry # hub) ! i), next_concept_id st + i) | i. i < length (entry # hub)}"
      by blast
  qed
  moreover have "(fst entry, next_concept_id st)
                 \<in> {(fst ((entry # hub) ! i), next_concept_id st + i) | i. i < length (entry # hub)}"
    by force
  moreover have "set (concepts (fold (\<lambda>entry st. create_concept st entry) (entry # hub) st))
                 \<subseteq> set (concepts ?st1) \<union> {(fst (hub ! i), next_concept_id ?st1 + i) | i. i < length hub}"
    using ih by simp
  ultimately have "set (concepts (fold (\<lambda>entry st. create_concept st entry) (entry # hub) st))
           \<subseteq> set (concepts st) \<union> {(fst ((entry # hub) ! i), next_concept_id st + i) | i. i < length (entry # hub)}"
    by blast
  with k show ?case by blast
qed

subsection \<open>The senses of one concept among those of the hub\<close>

lemma hub_senses_concept_ge:
  "(k, c, r) \<in> set (hub_senses n hub) \<Longrightarrow> n \<le> c"
proof (induction hub arbitrary: n)
  case Nil
  then show ?case by simp
next
  case (Cons entry hub)
  from Cons.prems
  have "(k, c, r) \<in> set (map (\<lambda>(k, r). (Some k, n, r)) (concept_senses entry))
        \<or> (k, c, r) \<in> set (hub_senses (Suc n) hub)"
    by simp
  then show ?case
  proof
    assume "(k, c, r) \<in> set (map (\<lambda>(k, r). (Some k, n, r)) (concept_senses entry))"
    then show ?thesis by auto
  next
    assume "(k, c, r) \<in> set (hub_senses (Suc n) hub)"
    then have "Suc n \<le> c" by (rule Cons.IH)
    then show ?thesis by simp
  qed
qed

lemma filter_hub_senses_below:
  "c < n \<Longrightarrow> filter (\<lambda>(k, c', r). c' = c) (hub_senses n hub) = []"
  using hub_senses_concept_ge [of _ c _ n hub] by (auto simp: filter_empty_conv)

lemma filter_hub_senses:
  "i < length hub \<Longrightarrow>
   filter (\<lambda>(k, c', r). c' = n + i) (hub_senses n hub)
     = map (\<lambda>(k, r). (Some k, n + i, r)) (concept_senses (hub ! i))"
proof (induction hub arbitrary: n i)
  case Nil
  then show ?case by simp
next
  case (Cons entry hub)
  show ?case
  proof (cases i)
    case 0
    have "filter (\<lambda>(k, c', r). c' = n) (map (\<lambda>(k, r). (Some k, n, r)) (concept_senses entry))
          = map (\<lambda>(k, r). (Some k, n, r)) (concept_senses entry)"
      by (auto simp: filter_id_conv)
    with 0 show ?thesis
      by (simp add: filter_hub_senses_below)
  next
    case (Suc j)
    with Cons.prems have j: "j < length hub" by simp
    have "filter (\<lambda>(k, c', r). c' = Suc n + j) (map (\<lambda>(k, r). (Some k, n, r)) (concept_senses entry)) = []"
      by (auto simp: filter_empty_conv)
    with Cons.IH [OF j, of "Suc n"] Suc show ?thesis by simp
  qed
qed

lemma rank_key_eq: "(\<lambda>((lang, lemma, lemma_pos), len). (len, lemma)) = rank_key"
  by (simp add: fun_eq_iff rank_key_def)

subsection \<open>Grouping by language\<close>

lemma group_by_lang_snoc:
  "group_by_lang (xs @ [x]) =
     dict_set (group_by_lang xs) (fst (fst x))
       ((case map_of (group_by_lang xs) (fst (fst x)) of Some l \<Rightarrow> l | None \<Rightarrow> []) @ [flat x])"
  by (simp add: group_by_lang_def flat_def case_prod_unfold)

lemma group_by_lang_Nil: "group_by_lang [] = []"
  by (simp add: group_by_lang_def)

lemma distinct_group_by_lang: "distinct (map fst (group_by_lang xs))"
  by (induction xs rule: rev_induct)
     (simp_all add: group_by_lang_Nil group_by_lang_snoc distinct_dict_set)

lemma map_of_group_by_lang:
  "map_of (group_by_lang xs) L =
     (if filter (\<lambda>x. fst (fst x) = L) xs = [] then None
      else Some (map flat (filter (\<lambda>x. fst (fst x) = L) xs)))"
proof (induction xs rule: rev_induct)
  case Nil
  then show ?case by (simp add: group_by_lang_Nil)
next
  case (snoc x xs)
  show ?case
  proof (cases "fst (fst x) = L")
    case True
    have "(case map_of (group_by_lang xs) L of Some l \<Rightarrow> l | None \<Rightarrow> [])
          = map flat (filter (\<lambda>x. fst (fst x) = L) xs)"
      by (simp add: snoc.IH)
    with True show ?thesis
      by (simp add: group_by_lang_snoc map_of_dict_set)
  next
    case False
    then show ?thesis
      by (simp add: group_by_lang_snoc map_of_dict_set snoc.IH)
  qed
qed

lemma filter_concat_groups:
  assumes "distinct (map fst gs)"
    and "\<And>g y. g \<in> set gs \<Longrightarrow> y \<in> set (F g) \<Longrightarrow> tag y = fst g"
  shows "filter (\<lambda>y. tag y = L) (concat (map F gs))
         = (case map_of gs L of None \<Rightarrow> [] | Some lts \<Rightarrow> F (L, lts))"
  using assms
proof (induction gs)
  case Nil
  then show ?case by simp
next
  case (Cons g gs)
  obtain L0 lts where g: "g = (L0, lts)" by (cases g)
  have ih: "filter (\<lambda>y. tag y = L) (concat (map F gs))
         = (case map_of gs L of None \<Rightarrow> [] | Some lts \<Rightarrow> F (L, lts))"
    using Cons.prems by (intro Cons.IH) auto
  have tagg: "\<And>y. y \<in> set (F g) \<Longrightarrow> tag y = L0"
    using Cons.prems(2) [of g] by (simp add: g)
  show ?case
  proof (cases "L0 = L")
    case True
    then have "map_of gs L = None"
      using Cons.prems(1) by (simp add: g map_of_eq_None_iff)
    moreover have "filter (\<lambda>y. tag y = L) (F g) = F g"
      using tagg True by (simp add: filter_id_conv)
    ultimately show ?thesis using True ih by (simp add: g)
  next
    case False
    then have "filter (\<lambda>y. tag y = L) (F g) = []"
      using tagg by (auto simp: filter_empty_conv)
    with False ih show ?thesis by (simp add: g)
  qed
qed

lemma map_fst_lang_senses:
  "map fst (lang_senses g) = map (\<lambda>(lang, lemma, lemma_pos, len). (lang, lemma, lemma_pos)) (take 3 (snd g))"
proof -
  have "map fst (lang_senses g)
        = map ((\<lambda>(lang, lemma, lemma_pos, len). (lang, lemma, lemma_pos)) \<circ> snd) (List.enumerate 1 (take 3 (snd g)))"
    by (simp add: lang_senses_def comp_def case_prod_unfold)
  also have "\<dots> = map (\<lambda>(lang, lemma, lemma_pos, len). (lang, lemma, lemma_pos))
                     (map snd (List.enumerate 1 (take 3 (snd g))))"
    by (simp only: map_map)
  also have "\<dots> = map (\<lambda>(lang, lemma, lemma_pos, len). (lang, lemma, lemma_pos)) (take 3 (snd g))"
    by (simp only: map_snd_enumerate)
  finally show ?thesis .
qed

lemma map_snd_lang_senses:
  "map snd (lang_senses g) = [1..<Suc (length (take 3 (snd g)))]"
proof -
  have "map snd (lang_senses g) = map fst (List.enumerate 1 (take 3 (snd g)))"
    by (simp add: lang_senses_def comp_def case_prod_unfold)
  then show ?thesis by simp
qed

lemma length_lang_senses: "length (lang_senses g) \<le> 3"
  by (simp add: lang_senses_def)

lemma lang_senses_Nil: "lang_senses (L, []) = []"
  by (simp add: lang_senses_def)

lemma filter_lang_groups:
  "filter (\<lambda>y. fst (fst y) = L) (concat (map lang_senses (group_by_lang xs)))
   = lang_senses (L, map flat (filter (\<lambda>x. fst (fst x) = L) xs))"
proof -
  have tag: "fst (fst y) = fst g" if "g \<in> set (group_by_lang xs)" "y \<in> set (lang_senses g)" for g y
  proof -
    obtain L0 lts where g: "g = (L0, lts)" by (cases g)
    from that(1) have "map_of (group_by_lang xs) L0 = Some lts"
      using distinct_group_by_lang [of xs] by (simp add: g)
    then have lts: "lts = map flat (filter (\<lambda>x. fst (fst x) = L0) xs)"
      by (simp add: map_of_group_by_lang split: if_splits)
    from that(2) have "fst y \<in> set (map fst (lang_senses g))" by simp
    then have "fst y \<in> (\<lambda>(lang, lemma, lemma_pos, len). (lang, lemma, lemma_pos)) ` set lts"
      unfolding map_fst_lang_senses using set_take_subset [of 3 lts] by (force simp: g)
    then show ?thesis
      by (auto simp: lts g flat_def)
  qed
  have "filter (\<lambda>y. fst (fst y) = L) (concat (map lang_senses (group_by_lang xs)))
        = (case map_of (group_by_lang xs) L of None \<Rightarrow> [] | Some lts \<Rightarrow> lang_senses (L, lts))"
    using distinct_group_by_lang tag by (rule filter_concat_groups)
  then show ?thesis
    by (simp add: map_of_group_by_lang lang_senses_Nil)
qed

text \<open>The senses of one concept for one language.\<close>

lemma filter_concept_senses:
  assumes "bucket_ok tr"
  shows "filter (\<lambda>y. fst (fst y) = L) (concept_senses ((e, p), tr))
         = (if L = ''en'' then [((''en'', e, p), 1)]
            else lang_senses (L, map flat (filter (\<lambda>x. fst (fst x) = L) (sort_key rank_key tr))))"
proof -
  have en: "filter (\<lambda>x. fst (fst x) = ''en'') (sort_key rank_key tr) = []"
    using assms by (auto simp: bucket_ok_def list_all_iff filter_empty_conv)
  show ?thesis
    using en by (simp add: concept_senses_def rank_key_eq filter_lang_groups lang_senses_Nil)
qed

lemma sorted_lang_part:
  assumes "bucket_ok tr"
  shows "sorted (map (\<lambda>s. (length s, s))
           (map (\<lambda>k. fst (snd k))
              (map fst (lang_senses (L, map flat (filter (\<lambda>x. fst (fst x) = L) (sort_key rank_key tr)))))))"
proof -
  let ?ys = "filter (\<lambda>x. fst (fst x) = L) (sort_key rank_key tr)"
  have "sorted (map rank_key (sort_key rank_key tr))"
    by (rule sorted_sort_key)
  then have "sorted (map rank_key ?ys)"
    by (rule sorted_filter)
  then have s: "sorted (take 3 (map rank_key ?ys))"
    by (rule sorted_wrt_take)
  have ok: "\<And>x. x \<in> set ?ys \<Longrightarrow> rank_key x = (length (fst (snd (fst x))), fst (snd (fst x)))"
    using assms by (auto simp: bucket_ok_def list_all_iff rank_key_def)
  have "map (\<lambda>s. (length s, s))
           (map (\<lambda>k. fst (snd k)) (map fst (lang_senses (L, map flat ?ys))))
        = map (\<lambda>x. (length (fst (snd (fst x))), fst (snd (fst x)))) (take 3 ?ys)"
    by (simp add: map_fst_lang_senses take_map comp_def flat_def)
  also have "\<dots> = map rank_key (take 3 ?ys)"
    using ok by (auto dest: in_set_takeD)
  finally show ?thesis using s by (simp add: take_map)
qed

subsection \<open>The hub\<close>

lemma bucket_ok_dict_set:
  "bucket_ok b \<Longrightarrow> lang \<noteq> ''en'' \<Longrightarrow> bucket_ok (dict_set b (lang, lemma, pos) (length lemma))"
  using set_dict_set [of b "(lang, lemma, pos)" "length lemma"]
  by (auto simp: bucket_ok_def list_all_iff)

lemma hub_ok_dict_set: "hub_ok h \<Longrightarrow> bucket_ok b \<Longrightarrow> hub_ok (dict_set h k b)"
  using set_dict_set [of h k b]
  by (auto simp: hub_ok_def list_all_iff)

lemma hub_ok_lookup:
  "hub_ok h \<Longrightarrow> bucket_ok (case map_of h k of Some b \<Rightarrow> b | None \<Rightarrow> [])"
proof (cases "map_of h k")
  case None
  then show ?thesis by (simp add: bucket_ok_def)
next
  case (Some b)
  assume "hub_ok h"
  moreover from Some have "(k, b) \<in> set h" by (rule map_of_SomeD)
  ultimately show ?thesis using Some by (auto simp: hub_ok_def list_all_iff)
qed

lemma hub_add_ok:
  assumes "hub_ok h" "lang_from \<noteq> ''en''"
  shows "hub_ok (hub_add pos_cache h (lemma_from, lang_from, translation))"
  using assms hub_ok_lookup [OF assms(1)]
  by (simp add: hub_add_def Let_def hub_ok_dict_set bucket_ok_dict_set)

lemma en_translations_of_lang:
  "(lemma_from, lang_from, translation) \<in> set (en_translations_of rows) \<Longrightarrow> lang_from \<noteq> ''en''"
  by (auto simp: en_translations_of_def)

lemma fold_hub_add_ok:
  "hub_ok h \<Longrightarrow> (\<And>a b c. (a, b, c) \<in> set rows \<Longrightarrow> b \<noteq> ''en'') \<Longrightarrow>
   hub_ok (fold (\<lambda>row h. hub_add pos_cache h row) rows h)"
proof (induction rows arbitrary: h)
  case Nil
  then show ?case by simp
next
  case (Cons row rows)
  obtain a b c where row: "row = (a, b, c)" by (cases row) auto
  have "b \<noteq> ''en''" using Cons.prems(2) [of a b c] by (simp add: row)
  with Cons.prems(1) have "hub_ok (hub_add pos_cache h row)"
    unfolding row by (rule hub_add_ok)
  then have "hub_ok (fold (\<lambda>row h. hub_add pos_cache h row) rows (hub_add pos_cache h row))"
    by (rule Cons.IH) (use Cons.prems(2) in auto)
  then show ?case by simp
qed

lemma fold_dbs_ok:
  "hub_ok h \<Longrightarrow>
   hub_ok (fold (\<lambda>rows english_hub.
             fold (\<lambda>row h. hub_add pos_cache h row) (en_translations_of rows) english_hub) dbs h)"
  by (induction dbs arbitrary: h) (simp_all add: fold_hub_add_ok en_translations_of_lang)

lemma fill_hub_ok: "hub_ok (fill_hub pos_cache dbs)"
  unfolding fill_hub_def by (rule fold_dbs_ok) (simp add: hub_ok_def)

subsection \<open>The language packs\<close>

lemma add_form_row_fresh: "fresh_builder st \<Longrightarrow> fresh_builder (add_form_row lang st row)"
  by (cases row)
     (auto simp: add_form_row_def Let_def fresh_builder_def wf_builder_def dict_set_new
        list_all_iff less_Suc_eq)

lemma fold_add_form_row_fresh:
  "fresh_builder st \<Longrightarrow> fresh_builder (fold (\<lambda>row st. add_form_row lang st row) rows st)"
  by (induction rows arbitrary: st) (simp_all add: add_form_row_fresh)

lemma fold_langs_fresh:
  "fresh_builder st \<Longrightarrow>
   fresh_builder (fold (\<lambda>lang st. case langpacks lang of
                        None \<Rightarrow> st
                      | Some rows \<Rightarrow> fold (\<lambda>row st. add_form_row lang st row) rows st) langs st)"
  by (induction langs arbitrary: st) (simp_all add: fold_add_form_row_fresh split: option.splits)

lemma extract_forms_and_lemmas_fresh:
  "fresh_builder (extract_forms_and_lemmas langpacks init_builder)"
  unfolding extract_forms_and_lemmas_def
  by (rule fold_langs_fresh) (simp add: fresh_builder_def wf_builder_def init_builder_def)

subsection \<open>The senses of a concept of a build\<close>

lemma keyed_senses_keyed: "keyed_senses st = map (keyed st) (senses st)"
  by (simp add: keyed_senses_def keyed_def case_prod_unfold)

lemma lang_of_key: "(\<exists>a b. k = (L, a, b)) \<longleftrightarrow> fst k = L"
  by (cases k) auto

lemma senses_of_build:
  assumes "((gloss, pos), c) \<in> set (concepts (build langpacks translation_dbs))"
  shows "\<exists>tr. bucket_ok tr \<and>
           map (keyed (build langpacks translation_dbs)) (senses_of (build langpacks translation_dbs) c L)
           = map (\<lambda>(k, r). (Some k, c, r))
               (filter (\<lambda>y. fst (fst y) = L) (concept_senses ((gloss, pos), tr)))"
proof -
  define st0 where "st0 = extract_forms_and_lemmas langpacks init_builder"
  define h where "h = fill_hub (build_pos_cache (lemmas st0)) translation_dbs"
  define st where "st = build langpacks translation_dbs"
  have st: "st = fold (\<lambda>entry st. create_concept st entry) h st0"
    by (simp add: st_def build_def build_concepts_from_translations_def Let_def st0_def h_def)
  have fresh: "fresh_builder st0"
    unfolding st0_def by (rule extract_forms_and_lemmas_fresh)
  then have w: "wf_builder st0" "senses_ok st0"
    by (simp_all add: fresh_builder_def senses_ok_def)
  from fold_create_concept [OF w, of h] fresh
  have ks: "keyed_senses st = hub_senses 1 h"
    and cs: "set (concepts st) \<subseteq> {(fst (h ! i), 1 + i) | i. i < length h}"
    by (simp_all add: st fresh_builder_def keyed_senses_def)
  from assms cs obtain i where i: "i < length h" "fst (h ! i) = (gloss, pos)" "c = 1 + i"
    unfolding st_def by auto
  define tr where "tr = snd (h ! i)"
  have entry: "h ! i = ((gloss, pos), tr)"
    using i(2) by (simp add: tr_def prod_eq_iff)
  have "hub_ok h" unfolding h_def by (rule fill_hub_ok)
  then have ok: "bucket_ok tr"
    using i(1) by (auto simp: hub_ok_def list_all_iff tr_def)
  have "map (keyed st) (senses_of st c L)
        = filter (\<lambda>y. fst (snd y) = c \<and> map_option fst (fst y) = Some L) (keyed_senses st)"
    by (simp add: senses_of_def keyed_senses_keyed filter_map comp_def keyed_def sense_lang_def)
  also have "\<dots> = filter (\<lambda>y. map_option fst (fst y) = Some L)
                      (filter (\<lambda>(k, c', r). c' = 1 + i) (hub_senses 1 h))"
    by (simp add: ks i(3) case_prod_unfold conj_commute)
  also have "\<dots> = filter (\<lambda>y. map_option fst (fst y) = Some L)
                      (map (\<lambda>(k, r). (Some k, c, r)) (concept_senses ((gloss, pos), tr)))"
    using filter_hub_senses [OF i(1), of 1] by (simp add: entry i(3))
  also have "\<dots> = map (\<lambda>(k, r). (Some k, c, r))
                      (filter (\<lambda>y. fst (fst y) = L) (concept_senses ((gloss, pos), tr)))"
    by (simp add: filter_map comp_def case_prod_unfold lang_of_key)
  finally show ?thesis using ok unfolding st_def by blast
qed

lemma sense_lemma_keyed:
  "sense_lemma st s = (case fst (keyed st s) of Some (lang, lemma, pos) \<Rightarrow> lemma | None \<Rightarrow> [])"
  by (simp add: sense_lemma_def keyed_def)

lemma ranks_keyed: "snd (snd s) = snd (snd (keyed st s))"
  by (simp add: keyed_def)

text \<open>
  Claim C1. For every concept of a build, the senses that link it to an English lemma
  are exactly one, \<open>(lemma_id, c, 1)\<close>: it has rank 1, and its lemma is the English
  lemma of the concept's gloss and part of speech.
\<close>

theorem pivot_sense_unique:
  assumes "((gloss, pos), c) \<in> set (concepts (build langpacks translation_dbs))"
  shows "\<exists>lemma_id.
           senses_of (build langpacks translation_dbs) c ''en'' = [(lemma_id, c, 1)] \<and>
           lemma_of_id (lemmas (build langpacks translation_dbs)) lemma_id = Some (''en'', gloss, pos)"
proof -
  let ?st = "build langpacks translation_dbs"
  from senses_of_build [OF assms, of "''en''"] obtain tr where tr: "bucket_ok tr"
    and m: "map (keyed ?st) (senses_of ?st c ''en'')
            = map (\<lambda>(k, r). (Some k, c, r))
                (filter (\<lambda>y. fst (fst y) = ''en'') (concept_senses ((gloss, pos), tr)))"
    by blast
  from m have "map (keyed ?st) (senses_of ?st c ''en'') = [(Some (''en'', gloss, pos), c, 1)]"
    by (simp add: filter_concept_senses [OF tr])
  then obtain s where s: "senses_of ?st c ''en'' = [s]" "keyed ?st s = (Some (''en'', gloss, pos), c, 1)"
    by (auto simp: map_eq_Cons_conv)
  obtain lemma_id c' r where "s = (lemma_id, c', r)" by (cases s)
  with s show ?thesis by (auto simp: keyed_def)
qed

text \<open>
  Claim C2. For every concept of a build and every language other than English, at
  most three senses link the concept to lemmas of that language.
\<close>

theorem senses_per_language_le_3:
  assumes "((gloss, pos), c) \<in> set (concepts (build langpacks translation_dbs))"
    and "lang \<noteq> ''en''"
  shows "length (senses_of (build langpacks translation_dbs) c lang) \<le> 3"
proof -
  let ?st = "build langpacks translation_dbs"
  from senses_of_build [OF assms(1), of lang] obtain tr where tr: "bucket_ok tr"
    and m: "map (keyed ?st) (senses_of ?st c lang)
            = map (\<lambda>(k, r). (Some k, c, r))
                (filter (\<lambda>y. fst (fst y) = lang) (concept_senses ((gloss, pos), tr)))"
    by blast
  have "length (senses_of ?st c lang) = length (map (keyed ?st) (senses_of ?st c lang))"
    by simp
  also have "\<dots> \<le> 3"
    unfolding m using assms(2) by (simp add: filter_concept_senses [OF tr] length_lang_senses)
  finally show ?thesis .
qed

lemma sorted_pairs_lengths:
  assumes "sorted (map (\<lambda>s::string. (length s, s)) strs)"
  shows "sorted (map length strs) \<and>
         (\<forall>i. Suc i < length strs \<longrightarrow> length (strs ! i) = length (strs ! Suc i)
              \<longrightarrow> strs ! i \<le> strs ! Suc i)"
proof -
  have le: "(length (strs ! i), strs ! i) \<le> (length (strs ! j), strs ! j)"
    if "i \<le> j" "j < length strs" for i j
    using sorted_nth_mono [OF assms, of i j] that by simp
  have "length (strs ! i) \<le> length (strs ! j)" if "i \<le> j" "j < length strs" for i j
    using le [OF that] by (auto simp: less_eq_prod_def)
  then have "sorted (map length strs)"
    unfolding sorted_iff_nth_mono by simp
  moreover have "strs ! i \<le> strs ! Suc i"
    if "Suc i < length strs" "length (strs ! i) = length (strs ! Suc i)" for i
    using le [of i "Suc i"] that by (simp add: less_eq_prod_def)
  ultimately show ?thesis by blast
qed

text \<open>
  Claim C3. For every concept of a build and every language: the ranks of the senses
  that link the concept to lemmas of the language are distinct, so that listing them by
  ascending rank is one list, whatever the order they are taken in (every listing of
  these senses with ascending ranks gives the lemma strings of \<open>lemmas_by_rank\<close>); the
  lemma strings in that order have non-decreasing lengths, and of two consecutive
  strings of equal length the first is the smaller or equal one in lexicographic order.
\<close>

theorem senses_rank_order:
  assumes "((gloss, pos), c) \<in> set (concepts (build langpacks translation_dbs))"
  shows "distinct (map sense_rank (senses_of (build langpacks translation_dbs) c lang)) \<and>
         (\<forall>listing.
            set listing = set (senses_of (build langpacks translation_dbs) c lang) \<and>
            distinct listing \<and> sorted (map sense_rank listing) \<longrightarrow>
            map (sense_lemma (build langpacks translation_dbs)) listing
              = lemmas_by_rank (build langpacks translation_dbs) c lang) \<and>
         sorted (map length (lemmas_by_rank (build langpacks translation_dbs) c lang)) \<and>
         (\<forall>i. Suc i < length (lemmas_by_rank (build langpacks translation_dbs) c lang) \<longrightarrow>
              length (lemmas_by_rank (build langpacks translation_dbs) c lang ! i)
                = length (lemmas_by_rank (build langpacks translation_dbs) c lang ! Suc i) \<longrightarrow>
              lemmas_by_rank (build langpacks translation_dbs) c lang ! i
                \<le> lemmas_by_rank (build langpacks translation_dbs) c lang ! Suc i)"
proof -
  let ?st = "build langpacks translation_dbs"
  let ?ss = "senses_of ?st c lang"
  from senses_of_build [OF assms, of lang] obtain tr where tr: "bucket_ok tr"
    and m: "map (keyed ?st) ?ss
            = map (\<lambda>(k, r). (Some k, c, r))
                (filter (\<lambda>y. fst (fst y) = lang) (concept_senses ((gloss, pos), tr)))"
    by blast
  define zs where "zs = filter (\<lambda>y. fst (fst y) = lang) (concept_senses ((gloss, pos), tr))"
  have zs: "zs = (if lang = ''en'' then [((''en'', gloss, pos), 1)]
            else lang_senses (lang, map flat (filter (\<lambda>x. fst (fst x) = lang) (sort_key rank_key tr))))"
    unfolding zs_def by (rule filter_concept_senses [OF tr])
  have "map (\<lambda>(lemma_id, concept_id, rank). rank) ?ss = map (\<lambda>y. snd (snd y)) (map (keyed ?st) ?ss)"
    by (simp add: keyed_def case_prod_unfold)
  also have "\<dots> = map snd zs"
    unfolding m zs_def [symmetric] by (simp add: case_prod_unfold comp_def)
  finally have ranks: "map (\<lambda>(lemma_id, concept_id, rank). rank) ?ss = map snd zs" .
  have "sorted (map snd zs)"
  proof (cases "lang = ''en''")
    case True
    then show ?thesis by (simp add: zs)
  next
    case False
    then have "map snd zs = [1..<Suc (length (take 3 (map flat
                 (filter (\<lambda>x. fst (fst x) = lang) (sort_key rank_key tr)))))]"
      by (simp only: zs if_False map_snd_lang_senses snd_conv)
    then show ?thesis by (simp only: sorted_upt)
  qed
  then have srt: "sort_key (\<lambda>(lemma_id, concept_id, rank). rank) ?ss = ?ss"
    unfolding ranks [symmetric] by (rule sort_key_id_if_sorted)
  have "lemmas_by_rank ?st c lang
        = map (\<lambda>y. case fst y of Some (lang, lemma, pos) \<Rightarrow> lemma | None \<Rightarrow> []) (map (keyed ?st) ?ss)"
    by (simp add: lemmas_by_rank_def srt sense_lemma_keyed comp_def)
  also have "\<dots> = map (\<lambda>k. fst (snd k)) (map fst zs)"
    unfolding m zs_def [symmetric] by (simp add: case_prod_unfold comp_def)
  finally have strs: "lemmas_by_rank ?st c lang = map (\<lambda>k. fst (snd k)) (map fst zs)" .
  have "sorted (map (\<lambda>s. (length s, s)) (lemmas_by_rank ?st c lang))"
  proof (cases "lang = ''en''")
    case True
    show ?thesis
      unfolding strs zs using True by simp
  next
    case False
    then show ?thesis
      unfolding strs using sorted_lang_part [OF tr, of lang] by (simp add: zs)
  qed
  then have order: "sorted (map length (lemmas_by_rank ?st c lang)) \<and>
         (\<forall>i. Suc i < length (lemmas_by_rank ?st c lang) \<longrightarrow>
              length (lemmas_by_rank ?st c lang ! i) = length (lemmas_by_rank ?st c lang ! Suc i) \<longrightarrow>
              lemmas_by_rank ?st c lang ! i \<le> lemmas_by_rank ?st c lang ! Suc i)"
    by (rule sorted_pairs_lengths)
  have "sense_rank = (\<lambda>(lemma_id, concept_id, rank). rank)"
    by (simp add: fun_eq_iff sense_rank_def)
  then have rk: "map sense_rank ?ss = map snd zs"
    using ranks by (simp only:)
  have dist: "distinct (map sense_rank ?ss)"
  proof (cases "lang = ''en''")
    case True
    then have "map snd zs = [1]" by (simp add: zs)
    then show ?thesis by (simp only: rk distinct_singleton)
  next
    case False
    then have "map snd zs = [1..<Suc (length (take 3 (map flat
                 (filter (\<lambda>x. fst (fst x) = lang) (sort_key rank_key tr)))))]"
      by (simp only: zs if_False map_snd_lang_senses snd_conv)
    then show ?thesis by (simp only: rk distinct_upt)
  qed
  have srt_rk: "sorted (map sense_rank ?ss)"
    using \<open>sorted (map snd zs)\<close> by (simp only: rk)
  have listing: "map (sense_lemma ?st) listing = lemmas_by_rank ?st c lang"
    if l: "set listing = set ?ss" "distinct listing" "sorted (map sense_rank listing)" for listing
  proof -
    from dist have inj: "inj_on sense_rank (set ?ss)"
      by (simp add: distinct_map)
    with l(1,2) have dl: "distinct (map sense_rank listing)"
      by (simp add: distinct_map)
    have sl: "set (map sense_rank listing) = set (map sense_rank ?ss)"
      using l(1) by simp
    have "map sense_rank listing = map sense_rank ?ss"
      using l(3) dl srt_rk dist sl by (rule sorted_distinct_set_unique)
    moreover have "inj_on sense_rank (set listing \<union> set ?ss)"
      using inj l(1) by simp
    ultimately have "listing = ?ss"
      by (rule map_inj_on)
    then show ?thesis
      by (simp add: lemmas_by_rank_def srt)
  qed
  from dist listing order show ?thesis by blast
qed

subsection \<open>A concrete build\<close>

lemma example_build:
  "build example_langpacks example_dbs =
     \<lparr>forms = [(''es'', ''casas'', ''casa'', ''NOUN'')],
      lemmas = [((''es'', ''casa'', ''NOUN''), 1), ((''es'', ''can'', ''UNKNOWN''), 2),
                ((''es'', ''tuso'', ''UNKNOWN''), 3), ((''es'', ''perro'', ''UNKNOWN''), 4),
                ((''en'', ''dog'', ''UNKNOWN''), 5)],
      concepts = [((''dog'', ''UNKNOWN''), 1)],
      senses = [(2, 1, 1), (3, 1, 2), (4, 1, 3), (5, 1, 1)],
      next_lemma_id = 6, next_concept_id = 2\<rparr>"
  by code_simp

theorem pivot_sense_unique_witness:
  "((''dog'', ''UNKNOWN''), 1) \<in> set (concepts (build example_langpacks example_dbs)) \<and>
   (\<exists>lemma_id.
      senses_of (build example_langpacks example_dbs) 1 ''en'' = [(lemma_id, 1, 1)] \<and>
      lemma_of_id (lemmas (build example_langpacks example_dbs)) lemma_id
        = Some (''en'', ''dog'', ''UNKNOWN''))"
proof -
  have a: "((''dog'', ''UNKNOWN''), 1) \<in> set (concepts (build example_langpacks example_dbs))"
    by (simp add: example_build)
  show ?thesis
    using a pivot_sense_unique [OF a] by simp
qed

theorem senses_per_language_le_3_witness:
  "((''dog'', ''UNKNOWN''), 1) \<in> set (concepts (build example_langpacks example_dbs)) \<and>
   ''es'' \<noteq> ''en'' \<and>
   length (senses_of (build example_langpacks example_dbs) 1 ''es'') \<le> 3"
proof -
  have a: "((''dog'', ''UNKNOWN''), 1) \<in> set (concepts (build example_langpacks example_dbs))"
    by (simp add: example_build)
  have b: "''es'' \<noteq> ''en''"
    by simp
  show ?thesis
    using a b senses_per_language_le_3 [OF a b] by simp
qed

theorem senses_rank_order_witness:
  "((''dog'', ''UNKNOWN''), 1) \<in> set (concepts (build example_langpacks example_dbs)) \<and>
   senses_of (build example_langpacks example_dbs) 1 ''es'' = [(2, 1, 1), (3, 1, 2), (4, 1, 3)] \<and>
   distinct (map sense_rank (senses_of (build example_langpacks example_dbs) 1 ''es'')) \<and>
   set [(4, 1, 3), (2, 1, 1), (3, 1, 2)]
     = set (senses_of (build example_langpacks example_dbs) 1 ''es'') \<and>
   map (sense_lemma (build example_langpacks example_dbs)) [(2, 1, 1), (3, 1, 2), (4, 1, 3)]
     = lemmas_by_rank (build example_langpacks example_dbs) 1 ''es'' \<and>
   lemmas_by_rank (build example_langpacks example_dbs) 1 ''es'' = [''can'', ''tuso'', ''perro''] \<and>
   sorted (map length (lemmas_by_rank (build example_langpacks example_dbs) 1 ''es''))"
proof -
  have a: "((''dog'', ''UNKNOWN''), 1) \<in> set (concepts (build example_langpacks example_dbs))"
    by (simp add: example_build)
  have s: "senses_of (build example_langpacks example_dbs) 1 ''es'' = [(2, 1, 1), (3, 1, 2), (4, 1, 3)]"
    by (simp add: example_build senses_of_def sense_lang_def lemma_of_id_def)
  have b: "lemmas_by_rank (build example_langpacks example_dbs) 1 ''es'' = [''can'', ''tuso'', ''perro'']"
    by (simp add: example_build lemmas_by_rank_def senses_of_def sense_lang_def sense_lemma_def
          lemma_of_id_def)
  have l: "set [(2, 1, 1), (3, 1, 2), (4, 1, 3)]
             = set (senses_of (build example_langpacks example_dbs) 1 ''es'') \<and>
           distinct [(2 :: nat, 1 :: nat, 1 :: nat), (3, 1, 2), (4, 1, 3)] \<and>
           sorted (map sense_rank [(2, 1, 1), (3, 1, 2), (4, 1, 3)])"
    unfolding s by (simp add: sense_rank_def)
  note t = senses_rank_order [OF a, of "''es''"]
  from t have d: "distinct (map sense_rank (senses_of (build example_langpacks example_dbs) 1 ''es''))"
    by blast
  from t l have m: "map (sense_lemma (build example_langpacks example_dbs)) [(2, 1, 1), (3, 1, 2), (4, 1, 3)]
     = lemmas_by_rank (build example_langpacks example_dbs) 1 ''es''"
    by blast
  from t have o: "sorted (map length (lemmas_by_rank (build example_langpacks example_dbs) 1 ''es''))"
    by blast
  have p: "set [(4, 1, 3), (2, 1, 1), (3, 1, 2)]
     = set (senses_of (build example_langpacks example_dbs) 1 ''es'')"
    unfolding s by auto
  from a s d p m b o show ?thesis by blast
qed

section \<open>The store\<close>

subsection \<open>Inserts\<close>

lemma duplicate_key_iff: "duplicate_key key table row \<longleftrightarrow> key row \<in> key ` set table"
  by (auto simp: duplicate_key_def list_ex_iff intro: rev_image_eqI)

lemma executemany_strict:
  assumes "\<And>table row. stmt table row =
             (if duplicate_key k1 table row \<or> duplicate_key k2 table row
              then Inl IntegrityError else Inr (table @ [row]))"
  shows "executemany stmt table rows =
           (if distinct (map k1 rows) \<and> distinct (map k2 rows)
               \<and> k1 ` set rows \<inter> k1 ` set table = {} \<and> k2 ` set rows \<inter> k2 ` set table = {}
            then Inr (table @ rows) else Inl IntegrityError)"
proof (induction rows arbitrary: table)
  case Nil
  then show ?case by simp
next
  case (Cons row rows)
  show ?case
  proof (cases "duplicate_key k1 table row \<or> duplicate_key k2 table row")
    case True
    then show ?thesis
      by (auto simp: assms duplicate_key_iff)
  next
    case False
    then have "executemany stmt table (row # rows) = executemany stmt (table @ [row]) rows"
      by (simp add: assms)
    also have "\<dots> = (if distinct (map k1 rows) \<and> distinct (map k2 rows)
               \<and> k1 ` set rows \<inter> k1 ` set (table @ [row]) = {}
               \<and> k2 ` set rows \<inter> k2 ` set (table @ [row]) = {}
            then Inr ((table @ [row]) @ rows) else Inl IntegrityError)"
      by (rule Cons.IH)
    finally show ?thesis
      using False by (auto simp: duplicate_key_iff)
  qed
qed

lemma executemany_insert_lemma:
  "executemany insert_lemma [] rows =
     (if distinct (map lemma_id_key rows) \<and> distinct (map lemma_unique_key rows)
      then Inr rows else Inl IntegrityError)"
  using executemany_strict [of insert_lemma lemma_id_key lemma_unique_key "[]" rows]
  by (simp add: insert_lemma_def)

lemma executemany_insert_concept:
  "executemany insert_concept [] rows =
     (if distinct (map concept_key rows) then Inr rows else Inl IntegrityError)"
  using executemany_strict [of insert_concept concept_key concept_key "[]" rows]
  by (simp add: insert_concept_def)

lemma lemma_rows_keys:
  "map lemma_id_key (lemma_rows b) = map snd (lemmas b)"
  "map lemma_unique_key (lemma_rows b) = map fst (lemmas b)"
  by (simp_all add: lemma_rows_def lemma_id_key_def lemma_unique_key_def case_prod_unfold)

lemma concept_rows_keys: "map concept_key (concept_rows b) = map snd (concepts b)"
  by (simp add: concept_rows_def concept_key_def case_prod_unfold)

lemma load_tables_result:
  "load_tables b =
     (if distinct (map snd (lemmas b)) \<and> distinct (map fst (lemmas b))
         \<and> distinct (map snd (concepts b))
      then Inr \<lparr>forms_table = fold (\<lambda>row table. insert_or_ignore_form table row) (form_rows b) [],
                lemmas_table = lemma_rows b,
                concepts_table = concept_rows b,
                senses_table = fold (\<lambda>row table. insert_or_ignore_sense table row) (senses b) []\<rparr>
      else Inl IntegrityError)"
  by (simp add: load_tables_def executemany_insert_lemma executemany_insert_concept
        lemma_rows_keys concept_rows_keys Let_def)

subsection \<open>Loading twice\<close>

lemma fold_ignore_grows:
  assumes "\<And>table row. ins table row = (if duplicate_key key table row then table else table @ [row])"
  shows "key ` set table \<subseteq> key ` set (fold (\<lambda>row table. ins table row) rows table)"
proof (induction rows arbitrary: table)
  case Nil
  then show ?case by simp
next
  case (Cons row rows)
  have "key ` set table \<subseteq> key ` set (ins table row)"
    by (auto simp: assms)
  also have "\<dots> \<subseteq> key ` set (fold (\<lambda>row table. ins table row) rows (ins table row))"
    by (rule Cons.IH)
  finally show ?case by simp
qed

lemma fold_ignore_covers:
  assumes "\<And>table row. ins table row = (if duplicate_key key table row then table else table @ [row])"
  shows "key ` set rows \<subseteq> key ` set (fold (\<lambda>row table. ins table row) rows table)"
proof (induction rows arbitrary: table)
  case Nil
  then show ?case by simp
next
  case (Cons row rows)
  have "key row \<in> key ` set (ins table row)"
    by (auto simp: assms duplicate_key_iff)
  then have "key row \<in> key ` set (fold (\<lambda>row table. ins table row) rows (ins table row))"
    using fold_ignore_grows [of ins key "ins table row" rows, OF assms] by blast
  with Cons.IH [of "ins table row"] show ?case by simp
qed

lemma fold_ignore_same:
  assumes "\<And>table row. ins table row = (if duplicate_key key table row then table else table @ [row])"
    and "key ` set rows \<subseteq> key ` set table"
  shows "fold (\<lambda>row table. ins table row) rows table = table"
  using assms(2)
  by (induction rows) (simp_all add: assms(1) duplicate_key_iff)

lemma fold_ignore_idem:
  assumes "\<And>table row. ins table row = (if duplicate_key key table row then table else table @ [row])"
  shows "fold (\<lambda>row table. ins table row) rows (fold (\<lambda>row table. ins table row) rows table)
         = fold (\<lambda>row table. ins table row) rows table"
  using assms fold_ignore_covers [of ins key rows table, OF assms]
  by (rule fold_ignore_same)

text \<open>
  Claim C9. An insert of a form row or of a sense row whose key is already in the table
  leaves the table as it is and raises nothing, so loading the same rows a second time
  changes nothing; an insert of a lemma row or of a concept row whose key is already in
  the table raises \<open>IntegrityError\<close>. For the whole of \<open>create_concepts_db\<close>: it
  raises exactly when two lemmas share an identifier or an identity, or two concepts an
  identifier, whatever is repeated among the forms and the senses.
\<close>

theorem duplicate_key_inserts:
  "(duplicate_key form_key form_table form \<longrightarrow> insert_or_ignore_form form_table form = form_table) \<and>
   (duplicate_key sense_key sense_table sense \<longrightarrow> insert_or_ignore_sense sense_table sense = sense_table) \<and>
   fold (\<lambda>row table. insert_or_ignore_form table row) new_forms
        (fold (\<lambda>row table. insert_or_ignore_form table row) new_forms form_table)
     = fold (\<lambda>row table. insert_or_ignore_form table row) new_forms form_table \<and>
   fold (\<lambda>row table. insert_or_ignore_sense table row) new_senses
        (fold (\<lambda>row table. insert_or_ignore_sense table row) new_senses sense_table)
     = fold (\<lambda>row table. insert_or_ignore_sense table row) new_senses sense_table \<and>
   (duplicate_key lemma_id_key lemma_table lemma_r \<or> duplicate_key lemma_unique_key lemma_table lemma_r \<longrightarrow>
      insert_lemma lemma_table lemma_r = Inl IntegrityError) \<and>
   (duplicate_key concept_key concept_table concept \<longrightarrow> insert_concept concept_table concept = Inl IntegrityError) \<and>
   fst (create_concepts_db b existing)
     = (if distinct (map snd (lemmas b)) \<and> distinct (map fst (lemmas b))
           \<and> distinct (map snd (concepts b))
        then None else Some IntegrityError)"
proof -
  have 1: "fold (\<lambda>row table. insert_or_ignore_form table row) new_forms
        (fold (\<lambda>row table. insert_or_ignore_form table row) new_forms form_table)
     = fold (\<lambda>row table. insert_or_ignore_form table row) new_forms form_table"
    by (rule fold_ignore_idem [of _ form_key]) (simp add: insert_or_ignore_form_def)
  have 2: "fold (\<lambda>row table. insert_or_ignore_sense table row) new_senses
        (fold (\<lambda>row table. insert_or_ignore_sense table row) new_senses sense_table)
     = fold (\<lambda>row table. insert_or_ignore_sense table row) new_senses sense_table"
    by (rule fold_ignore_idem [of _ sense_key]) (simp add: insert_or_ignore_sense_def)
  have 3: "fst (create_concepts_db b existing)
     = (if distinct (map snd (lemmas b)) \<and> distinct (map fst (lemmas b))
           \<and> distinct (map snd (concepts b))
        then None else Some IntegrityError)"
    by (simp add: create_concepts_db_def load_tables_result Let_def)
  show ?thesis
    using 1 2 3
    by (simp add: insert_or_ignore_form_def insert_or_ignore_sense_def insert_lemma_def
          insert_concept_def)
qed

theorem duplicate_key_inserts_witness:
  "duplicate_key form_key [(''es'', ''casas'', 1, None)] (''es'', ''casas'', 1, None) \<and>
   insert_or_ignore_form [(''es'', ''casas'', 1, None)] (''es'', ''casas'', 1, None)
     = [(''es'', ''casas'', 1, None)] \<and>
   duplicate_key sense_key [(2, 1, 1)] (2, 1, 3) \<and>
   insert_or_ignore_sense [(2, 1, 1)] (2, 1, 3) = [(2, 1, 1)] \<and>
   duplicate_key lemma_id_key [(1, ''en'', ''dog'', ''NOUN'', None)] (1, ''es'', ''perro'', ''NOUN'', None) \<and>
   insert_lemma [(1, ''en'', ''dog'', ''NOUN'', None)] (1, ''es'', ''perro'', ''NOUN'', None)
     = Inl IntegrityError \<and>
   duplicate_key concept_key [(1, ''NOUN'', ''dog'')] (1, ''VERB'', ''be'') \<and>
   insert_concept [(1, ''NOUN'', ''dog'')] (1, ''VERB'', ''be'') = Inl IntegrityError"
proof -
  have a: "duplicate_key form_key [(''es'', ''casas'', 1, None)] (''es'', ''casas'', 1, None)"
    by (simp add: duplicate_key_def form_key_def)
  have b: "duplicate_key sense_key [(2, 1, 1)] (2, 1, 3)"
    by (simp add: duplicate_key_def sense_key_def)
  have c: "duplicate_key lemma_id_key [(1, ''en'', ''dog'', ''NOUN'', None)]
             (1, ''es'', ''perro'', ''NOUN'', None)"
    by (simp add: duplicate_key_def lemma_id_key_def)
  have d: "duplicate_key concept_key [(1, ''NOUN'', ''dog'')] (1, ''VERB'', ''be'')"
    by (simp add: duplicate_key_def concept_key_def)
  show ?thesis
    using a b c d
      duplicate_key_inserts [of "[(''es'', ''casas'', 1, None)]" "(''es'', ''casas'', 1, None)"
        "[(2, 1, 1)]" "(2, 1, 3)" "[]" "[]"
        "[(1, ''en'', ''dog'', ''NOUN'', None)]" "(1, ''es'', ''perro'', ''NOUN'', None)"
        "[(1, ''NOUN'', ''dog'')]" "(1, ''VERB'', ''be'')" init_builder None]
    by simp
qed

subsection \<open>The keys of a build\<close>

lemma distinct_values_dict_set:
  "distinct (map snd d) \<Longrightarrow> v \<notin> snd ` set d \<Longrightarrow> distinct (map snd (dict_set d k v))"
proof (induction d)
  case Nil
  then show ?case by simp
next
  case (Cons x d)
  obtain k' v' where x: "x = (k', v')" by (cases x)
  show ?case
  proof (cases "k' = k")
    case True
    with Cons.prems show ?thesis by (simp add: x)
  next
    case False
    have "snd ` set (dict_set d k v) \<subseteq> insert v (snd ` set d)"
      using set_dict_set [of d k v] by force
    moreover have "v' \<noteq> v" "v' \<notin> snd ` set d"
      using Cons.prems by (auto simp: x)
    ultimately have "v' \<notin> snd ` set (dict_set d k v)" by blast
    with Cons False show ?thesis by (simp add: x)
  qed
qed

lemma add_sense_keys_ok: "keys_ok st \<Longrightarrow> keys_ok (add_sense c st kr)"
  by (cases kr)
     (auto simp: add_sense_def lemma_id_for_def keys_ok_def distinct_dict_set split: option.splits)

lemma fold_add_sense_keys_ok:
  "keys_ok st \<Longrightarrow> keys_ok (fold (\<lambda>kr st. add_sense c st kr) xs st)"
  by (induction xs arbitrary: st) (simp_all add: add_sense_keys_ok)

lemma fold_add_lang_senses_keys_ok:
  "keys_ok st \<Longrightarrow> keys_ok (fold (\<lambda>g st. add_lang_senses c st g) gs st)"
  by (induction gs arbitrary: st) (simp_all add: add_lang_senses_fold fold_add_sense_keys_ok)

lemma create_concept_keys_ok:
  assumes "keys_ok st"
  shows "keys_ok (create_concept st entry)"
proof -
  obtain e p tr where entry: "entry = ((e, p), tr)" by (cases entry) auto
  let ?c = "next_concept_id st"
  define st2 where "st2 = st\<lparr>next_concept_id := Suc ?c, concepts := dict_set (concepts st) (e, p) ?c\<rparr>"
  have fresh: "?c \<notin> snd ` set (concepts st)"
    using assms by (auto simp: keys_ok_def list_all_iff)
  have "snd ` set (dict_set (concepts st) (e, p) ?c) \<subseteq> insert ?c (snd ` set (concepts st))"
    using set_dict_set [of "concepts st" "(e, p)" ?c] by force
  then have below: "list_all (\<lambda>(k, c). c < Suc ?c) (dict_set (concepts st) (e, p) ?c)"
    using assms by (fastforce simp: keys_ok_def list_all_iff less_Suc_eq)
  have "keys_ok st2"
    using assms fresh below by (simp add: st2_def keys_ok_def distinct_values_dict_set)
  then have "keys_ok (fold (\<lambda>g st. add_lang_senses ?c st g)
               (group_by_lang (sort_key (\<lambda>((lang, lemma, lemma_pos), len). (len, lemma)) tr)) st2)"
    by (rule fold_add_lang_senses_keys_ok)
  then show ?thesis
    by (simp add: create_concept_def entry st2_def Let_def add_sense_keys_ok)
qed

lemma fold_create_concept_keys_ok:
  "wf_builder st \<Longrightarrow> senses_ok st \<Longrightarrow> keys_ok st \<Longrightarrow>
   wf_builder (fold (\<lambda>entry st. create_concept st entry) hub st) \<and>
   keys_ok (fold (\<lambda>entry st. create_concept st entry) hub st)"
proof (induction hub arbitrary: st)
  case Nil
  then show ?case by simp
next
  case (Cons entry hub)
  from create_concept_effect [OF Cons.prems(1,2), of entry]
  have "wf_builder (create_concept st entry)" "senses_ok (create_concept st entry)" by simp_all
  moreover have "keys_ok (create_concept st entry)"
    using Cons.prems(3) by (rule create_concept_keys_ok)
  ultimately show ?case using Cons.IH by simp
qed

lemma add_form_row_keys_ok: "keys_ok st \<Longrightarrow> keys_ok (add_form_row lang st row)"
  by (cases row) (auto simp: add_form_row_def Let_def keys_ok_def distinct_dict_set)

lemma fold_add_form_row_keys_ok:
  "keys_ok st \<Longrightarrow> keys_ok (fold (\<lambda>row st. add_form_row lang st row) rows st)"
  by (induction rows arbitrary: st) (simp_all add: add_form_row_keys_ok)

lemma fold_langs_keys_ok:
  "keys_ok st \<Longrightarrow>
   keys_ok (fold (\<lambda>lang st. case langpacks lang of
                        None \<Rightarrow> st
                      | Some rows \<Rightarrow> fold (\<lambda>row st. add_form_row lang st row) rows st) langs st)"
  by (induction langs arbitrary: st) (simp_all add: fold_add_form_row_keys_ok split: option.splits)

lemma extract_forms_and_lemmas_keys_ok:
  "keys_ok (extract_forms_and_lemmas langpacks init_builder)"
  unfolding extract_forms_and_lemmas_def
  by (rule fold_langs_keys_ok) (simp add: keys_ok_def init_builder_def)

text \<open>
  The dicts of a builder that \<open>build\<close> returns never make an insert of
  \<open>create_concepts_db\<close> meet a key that is in its table: the constraints of the schema
  do not fail on a build.
\<close>

lemma load_tables_build: "\<exists>s. load_tables (build langpacks translation_dbs) = Inr s"
proof -
  define st0 where "st0 = extract_forms_and_lemmas langpacks init_builder"
  have "fresh_builder st0"
    unfolding st0_def by (rule extract_forms_and_lemmas_fresh)
  then have w: "wf_builder st0" "senses_ok st0"
    by (simp_all add: fresh_builder_def senses_ok_def)
  have k: "keys_ok st0"
    unfolding st0_def by (rule extract_forms_and_lemmas_keys_ok)
  have "wf_builder (build langpacks translation_dbs) \<and> keys_ok (build langpacks translation_dbs)"
    unfolding build_def build_concepts_from_translations_def Let_def st0_def [symmetric]
    using w k by (rule fold_create_concept_keys_ok)
  then show ?thesis
    by (simp add: load_tables_result wf_builder_def keys_ok_def)
qed

section \<open>The store when the storage fails\<close>

subsection \<open>The file during the transaction\<close>

lemma storage_write_same:
  "storage_write conn = Inr conn' \<Longrightarrow>
   committed conn' = committed conn \<and> pending conn' = pending conn"
  by (auto simp: storage_write_def split: option.splits nat.splits)

lemma write_lemma_committed:
  "write_lemma conn row = Inl (e, conn') \<Longrightarrow> committed conn' = committed conn"
  "write_lemma conn row = Inr conn' \<Longrightarrow> committed conn' = committed conn"
  by (auto simp: write_lemma_def split: sum.splits dest: storage_write_same)

lemma write_form_committed:
  "write_form conn row = Inl (e, conn') \<Longrightarrow> committed conn' = committed conn"
  "write_form conn row = Inr conn' \<Longrightarrow> committed conn' = committed conn"
  by (auto simp: write_form_def split: sum.splits dest: storage_write_same)

lemma write_concept_committed:
  "write_concept conn row = Inl (e, conn') \<Longrightarrow> committed conn' = committed conn"
  "write_concept conn row = Inr conn' \<Longrightarrow> committed conn' = committed conn"
  by (auto simp: write_concept_def split: sum.splits dest: storage_write_same)

lemma write_sense_committed:
  "write_sense conn row = Inl (e, conn') \<Longrightarrow> committed conn' = committed conn"
  "write_sense conn row = Inr conn' \<Longrightarrow> committed conn' = committed conn"
  by (auto simp: write_sense_def split: sum.splits dest: storage_write_same)

lemma write_rows_committed:
  assumes l: "\<And>conn row e conn'. stmt conn row = Inl (e, conn') \<Longrightarrow> committed conn' = committed conn"
    and r: "\<And>conn row conn'. stmt conn row = Inr conn' \<Longrightarrow> committed conn' = committed conn"
  shows "write_rows stmt conn rows = Inl (e, conn') \<Longrightarrow> committed conn' = committed conn"
    and "write_rows stmt conn rows = Inr conn' \<Longrightarrow> committed conn' = committed conn"
proof (induction rows arbitrary: conn)
  case Nil
  { case 1 then show ?case by simp }
  { case 2 then show ?case by simp }
next
  case (Cons row rows)
  { case 1
    show ?case
    proof (cases "stmt conn row")
      case (Inl failure)
      with 1 have "stmt conn row = Inl (e, conn')" by simp
      then show ?thesis by (rule l)
    next
      case (Inr conn1)
      with 1 have "write_rows stmt conn1 rows = Inl (e, conn')" by simp
      then have "committed conn' = committed conn1" by (rule Cons.IH(1))
      with r [OF Inr] show ?thesis by simp
    qed }
  { case 2
    show ?case
    proof (cases "stmt conn row")
      case (Inl failure)
      with 2 show ?thesis by simp
    next
      case (Inr conn1)
      with 2 have "write_rows stmt conn1 rows = Inr conn'" by simp
      then have "committed conn' = committed conn1" by (rule Cons.IH(2))
      with r [OF Inr] show ?thesis by simp
    qed }
qed

lemma write_lemmas_committed:
  "write_rows write_lemma conn rows = Inl (e, conn') \<Longrightarrow> committed conn' = committed conn"
  "write_rows write_lemma conn rows = Inr conn' \<Longrightarrow> committed conn' = committed conn"
proof -
  assume "write_rows write_lemma conn rows = Inl (e, conn')"
  then show "committed conn' = committed conn"
    by (rule write_rows_committed(1) [rotated 2]) (erule write_lemma_committed)+
next
  assume "write_rows write_lemma conn rows = Inr conn'"
  then show "committed conn' = committed conn"
    by (rule write_rows_committed(2) [rotated 2]) (erule write_lemma_committed)+
qed

lemma write_forms_committed:
  "write_rows write_form conn rows = Inl (e, conn') \<Longrightarrow> committed conn' = committed conn"
  "write_rows write_form conn rows = Inr conn' \<Longrightarrow> committed conn' = committed conn"
proof -
  assume "write_rows write_form conn rows = Inl (e, conn')"
  then show "committed conn' = committed conn"
    by (rule write_rows_committed(1) [rotated 2]) (erule write_form_committed)+
next
  assume "write_rows write_form conn rows = Inr conn'"
  then show "committed conn' = committed conn"
    by (rule write_rows_committed(2) [rotated 2]) (erule write_form_committed)+
qed

lemma write_concepts_committed:
  "write_rows write_concept conn rows = Inl (e, conn') \<Longrightarrow> committed conn' = committed conn"
  "write_rows write_concept conn rows = Inr conn' \<Longrightarrow> committed conn' = committed conn"
proof -
  assume "write_rows write_concept conn rows = Inl (e, conn')"
  then show "committed conn' = committed conn"
    by (rule write_rows_committed(1) [rotated 2]) (erule write_concept_committed)+
next
  assume "write_rows write_concept conn rows = Inr conn'"
  then show "committed conn' = committed conn"
    by (rule write_rows_committed(2) [rotated 2]) (erule write_concept_committed)+
qed

lemma write_senses_committed:
  "write_rows write_sense conn rows = Inl (e, conn') \<Longrightarrow> committed conn' = committed conn"
  "write_rows write_sense conn rows = Inr conn' \<Longrightarrow> committed conn' = committed conn"
proof -
  assume "write_rows write_sense conn rows = Inl (e, conn')"
  then show "committed conn' = committed conn"
    by (rule write_rows_committed(1) [rotated 2]) (erule write_sense_committed)+
next
  assume "write_rows write_sense conn rows = Inr conn'"
  then show "committed conn' = committed conn"
    by (rule write_rows_committed(2) [rotated 2]) (erule write_sense_committed)+
qed

lemma commit_failure: "commit conn = Inl (e, conn') \<Longrightarrow> committed conn' = committed conn"
  by (auto simp: commit_def split: sum.splits)

text \<open>Until \<open>COMMIT\<close> has succeeded, the file holds what it held when the transaction began.\<close>

lemma transaction_failure:
  assumes "transaction b conn = Inl (e, conn')"
  shows "committed conn' = committed conn"
proof (cases "write_rows write_lemma conn (lemma_rows b)")
  case (Inl failure)
  with assms have "write_rows write_lemma conn (lemma_rows b) = Inl (e, conn')"
    by (simp add: transaction_def)
  then show ?thesis by (rule write_lemmas_committed)
next
  case c1: (Inr conn1)
  then have k1: "committed conn1 = committed conn" by (rule write_lemmas_committed)
  show ?thesis
  proof (cases "write_rows write_form conn1 (form_rows b)")
    case (Inl failure)
    with assms c1 have "write_rows write_form conn1 (form_rows b) = Inl (e, conn')"
      by (simp add: transaction_def)
    then have "committed conn' = committed conn1" by (rule write_forms_committed)
    with k1 show ?thesis by simp
  next
    case c2: (Inr conn2)
    then have k2: "committed conn2 = committed conn1" by (rule write_forms_committed)
    show ?thesis
    proof (cases "write_rows write_concept conn2 (concept_rows b)")
      case (Inl failure)
      with assms c1 c2 have "write_rows write_concept conn2 (concept_rows b) = Inl (e, conn')"
        by (simp add: transaction_def)
      then have "committed conn' = committed conn2" by (rule write_concepts_committed)
      with k1 k2 show ?thesis by simp
    next
      case c3: (Inr conn3)
      then have k3: "committed conn3 = committed conn2" by (rule write_concepts_committed)
      show ?thesis
      proof (cases "write_rows write_sense conn3 (senses b)")
        case (Inl failure)
        with assms c1 c2 c3 have "write_rows write_sense conn3 (senses b) = Inl (e, conn')"
          by (simp add: transaction_def)
        then have "committed conn' = committed conn3" by (rule write_senses_committed)
        with k1 k2 k3 show ?thesis by simp
      next
        case c4: (Inr conn4)
        then have k4: "committed conn4 = committed conn3" by (rule write_senses_committed)
        from assms c1 c2 c3 c4 have "commit conn4 = Inl (e, conn')"
          by (simp add: transaction_def)
        then have "committed conn' = committed conn4" by (rule commit_failure)
        with k1 k2 k3 k4 show ?thesis by simp
      qed
    qed
  qed
qed

subsection \<open>A storage that does not fail\<close>

lemma storage_write_no_fault: "writes_left conn = None \<Longrightarrow> storage_write conn = Inr conn"
  by (simp add: storage_write_def)

lemma write_forms_no_fault:
  "writes_left conn = None \<Longrightarrow>
   write_rows write_form conn rows
     = Inr (conn\<lparr>pending := (pending conn)
              \<lparr>forms_table := fold (\<lambda>row table. insert_or_ignore_form table row) rows
                                  (forms_table (pending conn))\<rparr>\<rparr>)"
  by (induction rows arbitrary: conn) (simp_all add: write_form_def storage_write_no_fault)

lemma write_senses_no_fault:
  "writes_left conn = None \<Longrightarrow>
   write_rows write_sense conn rows
     = Inr (conn\<lparr>pending := (pending conn)
              \<lparr>senses_table := fold (\<lambda>row table. insert_or_ignore_sense table row) rows
                                   (senses_table (pending conn))\<rparr>\<rparr>)"
  by (induction rows arbitrary: conn) (simp_all add: write_sense_def storage_write_no_fault)

lemma write_lemmas_no_fault:
  "writes_left conn = None \<Longrightarrow>
   (case executemany insert_lemma (lemmas_table (pending conn)) rows of
      Inl e \<Rightarrow> \<exists>c. write_rows write_lemma conn rows = Inl (Integrity e, c)
    | Inr table \<Rightarrow>
        write_rows write_lemma conn rows
          = Inr (conn\<lparr>pending := (pending conn)\<lparr>lemmas_table := table\<rparr>\<rparr>))"
proof (induction rows arbitrary: conn)
  case Nil
  then show ?case by simp
next
  case (Cons row rows)
  show ?case
  proof (cases "insert_lemma (lemmas_table (pending conn)) row")
    case (Inl e)
    with Cons.prems show ?thesis
      by (simp add: write_lemma_def storage_write_no_fault)
  next
    case (Inr table)
    let ?conn1 = "conn\<lparr>pending := (pending conn)\<lparr>lemmas_table := table\<rparr>\<rparr>"
    have "writes_left ?conn1 = None" using Cons.prems by simp
    from Cons.IH [OF this] Inr Cons.prems show ?thesis
      by (simp add: write_lemma_def storage_write_no_fault split: sum.splits)
  qed
qed

lemma write_concepts_no_fault:
  "writes_left conn = None \<Longrightarrow>
   (case executemany insert_concept (concepts_table (pending conn)) rows of
      Inl e \<Rightarrow> \<exists>c. write_rows write_concept conn rows = Inl (Integrity e, c)
    | Inr table \<Rightarrow>
        write_rows write_concept conn rows
          = Inr (conn\<lparr>pending := (pending conn)\<lparr>concepts_table := table\<rparr>\<rparr>))"
proof (induction rows arbitrary: conn)
  case Nil
  then show ?case by simp
next
  case (Cons row rows)
  show ?case
  proof (cases "insert_concept (concepts_table (pending conn)) row")
    case (Inl e)
    with Cons.prems show ?thesis
      by (simp add: write_concept_def storage_write_no_fault)
  next
    case (Inr table)
    let ?conn1 = "conn\<lparr>pending := (pending conn)\<lparr>concepts_table := table\<rparr>\<rparr>"
    have "writes_left ?conn1 = None" using Cons.prems by simp
    from Cons.IH [OF this] Inr Cons.prems show ?thesis
      by (simp add: write_concept_def storage_write_no_fault split: sum.splits)
  qed
qed

text \<open>
  With a storage that does not fail, \<open>create_concepts_db_io\<close> is \<open>create_concepts_db\<close>.
\<close>

lemma create_concepts_db_io_no_fault:
  "create_concepts_db_io None b existing
     = (map_option Integrity (fst (create_concepts_db b existing)),
        snd (create_concepts_db b existing))"
proof -
  let ?conn = "\<lparr>committed = empty_store, pending = empty_store, writes_left = None\<rparr>"
  have io: "create_concepts_db_io None b existing =
           (case transaction b ?conn of
              Inl (e, conn') \<Rightarrow> (Some e, Some (committed conn'))
            | Inr conn' \<Rightarrow> (None, Some (committed conn')))"
    by (simp add: create_concepts_db_io_def Let_def)
  have pure: "create_concepts_db b existing =
           (case load_tables b of Inl e \<Rightarrow> (Some e, Some empty_store) | Inr s \<Rightarrow> (None, Some s))"
    by (cases existing) (simp_all add: create_concepts_db_def Let_def split: sum.splits)
  show ?thesis
  proof (cases "executemany insert_lemma [] (lemma_rows b)")
    case (Inl e)
    with write_lemmas_no_fault [of ?conn "lemma_rows b"]
    obtain c where w: "write_rows write_lemma ?conn (lemma_rows b) = Inl (Integrity e, c)"
      by (auto simp: empty_store_def)
    then have t: "transaction b ?conn = Inl (Integrity e, c)"
      by (simp add: transaction_def)
    then have "committed c = committed ?conn" by (rule transaction_failure)
    with t Inl show ?thesis
      by (simp add: io pure load_tables_def)
  next
    case l: (Inr lt)
    let ?conn1 = "?conn\<lparr>pending := (pending ?conn)\<lparr>lemmas_table := lt\<rparr>\<rparr>"
    have w1: "write_rows write_lemma ?conn (lemma_rows b) = Inr ?conn1"
      using write_lemmas_no_fault [of ?conn "lemma_rows b"] l by (simp add: empty_store_def)
    let ?ft = "fold (\<lambda>row table. insert_or_ignore_form table row) (form_rows b) []"
    let ?conn2 = "?conn1\<lparr>pending := (pending ?conn1)\<lparr>forms_table := ?ft\<rparr>\<rparr>"
    have w2: "write_rows write_form ?conn1 (form_rows b) = Inr ?conn2"
      using write_forms_no_fault [of ?conn1 "form_rows b"] by (simp add: empty_store_def)
    show ?thesis
    proof (cases "executemany insert_concept [] (concept_rows b)")
      case (Inl e)
      with write_concepts_no_fault [of ?conn2 "concept_rows b"]
      obtain c where w: "write_rows write_concept ?conn2 (concept_rows b) = Inl (Integrity e, c)"
        by (auto simp: empty_store_def)
      with w1 w2 have t: "transaction b ?conn = Inl (Integrity e, c)"
        by (simp add: transaction_def)
      then have "committed c = committed ?conn" by (rule transaction_failure)
      with t Inl l show ?thesis
        by (simp add: io pure load_tables_def Let_def)
    next
      case k: (Inr ct)
      let ?conn3 = "?conn2\<lparr>pending := (pending ?conn2)\<lparr>concepts_table := ct\<rparr>\<rparr>"
      have w3: "write_rows write_concept ?conn2 (concept_rows b) = Inr ?conn3"
        using write_concepts_no_fault [of ?conn2 "concept_rows b"] k by (simp add: empty_store_def)
      let ?st = "fold (\<lambda>row table. insert_or_ignore_sense table row) (senses b) []"
      let ?conn4 = "?conn3\<lparr>pending := (pending ?conn3)\<lparr>senses_table := ?st\<rparr>\<rparr>"
      have w4: "write_rows write_sense ?conn3 (senses b) = Inr ?conn4"
        using write_senses_no_fault [of ?conn3 "senses b"] by (simp add: empty_store_def)
      have "transaction b ?conn = Inr (?conn4\<lparr>committed := pending ?conn4\<rparr>)"
        using w1 w2 w3 w4 by (simp add: transaction_def commit_def storage_write_no_fault)
      with l k show ?thesis
        by (simp add: io pure load_tables_def Let_def empty_store_def)
    qed
  qed
qed

lemma create_concepts_db_io_build:
  "\<exists>s. load_tables (build langpacks translation_dbs) = Inr s \<and>
       create_concepts_db_io None (build langpacks translation_dbs) existing = (None, Some s)"
proof -
  obtain s where "load_tables (build langpacks translation_dbs) = Inr s"
    using load_tables_build by blast
  then show ?thesis
    by (cases existing) (simp_all add: create_concepts_db_io_no_fault create_concepts_db_def Let_def)
qed

subsection \<open>A transaction that is committed\<close>

text \<open>A transaction that the storage lets through runs as on a storage that does not fail.\<close>

lemma storage_write_unlimited:
  "storage_write conn = Inr conn' \<Longrightarrow>
   storage_write (conn\<lparr>writes_left := None\<rparr>) = Inr (conn\<lparr>writes_left := None\<rparr>) \<and>
   conn'\<lparr>writes_left := None\<rparr> = conn\<lparr>writes_left := None\<rparr>"
  by (auto simp: storage_write_def split: option.splits nat.splits)

lemma write_lemma_unlimited:
  "write_lemma conn row = Inr conn' \<Longrightarrow>
   write_lemma (conn\<lparr>writes_left := None\<rparr>) row = Inr (conn'\<lparr>writes_left := None\<rparr>)"
  by (auto simp: write_lemma_def storage_write_def split: option.splits nat.splits sum.splits)

lemma write_form_unlimited:
  "write_form conn row = Inr conn' \<Longrightarrow>
   write_form (conn\<lparr>writes_left := None\<rparr>) row = Inr (conn'\<lparr>writes_left := None\<rparr>)"
  by (auto simp: write_form_def storage_write_def split: option.splits nat.splits sum.splits)

lemma write_concept_unlimited:
  "write_concept conn row = Inr conn' \<Longrightarrow>
   write_concept (conn\<lparr>writes_left := None\<rparr>) row = Inr (conn'\<lparr>writes_left := None\<rparr>)"
  by (auto simp: write_concept_def storage_write_def split: option.splits nat.splits sum.splits)

lemma write_sense_unlimited:
  "write_sense conn row = Inr conn' \<Longrightarrow>
   write_sense (conn\<lparr>writes_left := None\<rparr>) row = Inr (conn'\<lparr>writes_left := None\<rparr>)"
  by (auto simp: write_sense_def storage_write_def split: option.splits nat.splits sum.splits)

lemma commit_unlimited:
  "commit conn = Inr conn' \<Longrightarrow>
   commit (conn\<lparr>writes_left := None\<rparr>) = Inr (conn'\<lparr>writes_left := None\<rparr>)"
  by (auto simp: commit_def storage_write_def split: option.splits nat.splits sum.splits)

lemma write_rows_unlimited:
  assumes "\<And>conn row conn'. stmt conn row = Inr conn' \<Longrightarrow>
             stmt (conn\<lparr>writes_left := None\<rparr>) row = Inr (conn'\<lparr>writes_left := None\<rparr>)"
  shows "write_rows stmt conn rows = Inr conn' \<Longrightarrow>
         write_rows stmt (conn\<lparr>writes_left := None\<rparr>) rows = Inr (conn'\<lparr>writes_left := None\<rparr>)"
proof (induction rows arbitrary: conn)
  case Nil
  then show ?case by simp
next
  case (Cons row rows)
  from Cons.prems obtain conn1 where 1: "stmt conn row = Inr conn1"
    and 2: "write_rows stmt conn1 rows = Inr conn'"
    by (auto split: sum.splits)
  from 1 have "stmt (conn\<lparr>writes_left := None\<rparr>) row = Inr (conn1\<lparr>writes_left := None\<rparr>)"
    by (rule assms)
  moreover from 2 have "write_rows stmt (conn1\<lparr>writes_left := None\<rparr>) rows
                          = Inr (conn'\<lparr>writes_left := None\<rparr>)"
    by (rule Cons.IH)
  ultimately show ?case by simp
qed

lemma transaction_unlimited:
  assumes "transaction b conn = Inr conn'"
  shows "transaction b (conn\<lparr>writes_left := None\<rparr>) = Inr (conn'\<lparr>writes_left := None\<rparr>)"
proof -
  from assms obtain conn1 conn2 conn3 conn4
    where 1: "write_rows write_lemma conn (lemma_rows b) = Inr conn1"
      and 2: "write_rows write_form conn1 (form_rows b) = Inr conn2"
      and 3: "write_rows write_concept conn2 (concept_rows b) = Inr conn3"
      and 4: "write_rows write_sense conn3 (senses b) = Inr conn4"
      and 5: "commit conn4 = Inr conn'"
    by (auto simp: transaction_def split: sum.splits)
  have "write_rows write_lemma (conn\<lparr>writes_left := None\<rparr>) (lemma_rows b)
          = Inr (conn1\<lparr>writes_left := None\<rparr>)"
    using write_lemma_unlimited 1 by (rule write_rows_unlimited)
  moreover have "write_rows write_form (conn1\<lparr>writes_left := None\<rparr>) (form_rows b)
          = Inr (conn2\<lparr>writes_left := None\<rparr>)"
    using write_form_unlimited 2 by (rule write_rows_unlimited)
  moreover have "write_rows write_concept (conn2\<lparr>writes_left := None\<rparr>) (concept_rows b)
          = Inr (conn3\<lparr>writes_left := None\<rparr>)"
    using write_concept_unlimited 3 by (rule write_rows_unlimited)
  moreover have "write_rows write_sense (conn3\<lparr>writes_left := None\<rparr>) (senses b)
          = Inr (conn4\<lparr>writes_left := None\<rparr>)"
    using write_sense_unlimited 4 by (rule write_rows_unlimited)
  moreover have "commit (conn4\<lparr>writes_left := None\<rparr>) = Inr (conn'\<lparr>writes_left := None\<rparr>)"
    using 5 by (rule commit_unlimited)
  ultimately show ?thesis by (simp add: transaction_def)
qed

lemma create_concepts_db_io_committed:
  assumes "fst (create_concepts_db_io fault b existing) = None"
  shows "\<exists>s. load_tables b = Inr s \<and> snd (create_concepts_db_io fault b existing) = Some s"
proof -
  let ?conn = "\<lparr>committed = empty_store, pending = empty_store, writes_left = fault\<rparr>"
  have c: "create_concepts_db_io f b existing =
           (case transaction b \<lparr>committed = empty_store, pending = empty_store, writes_left = f\<rparr> of
              Inl (e, conn') \<Rightarrow> (Some e, Some (committed conn'))
            | Inr conn' \<Rightarrow> (None, Some (committed conn')))" for f
    by (simp add: create_concepts_db_io_def Let_def)
  from assms obtain conn' where t: "transaction b ?conn = Inr conn'"
    by (auto simp: c split: sum.splits)
  then have "transaction b (?conn\<lparr>writes_left := None\<rparr>) = Inr (conn'\<lparr>writes_left := None\<rparr>)"
    by (rule transaction_unlimited)
  then have same: "create_concepts_db_io None b existing = create_concepts_db_io fault b existing"
    using t by (simp add: c)
  have pure: "create_concepts_db_io fault b existing
                = (map_option Integrity (fst (create_concepts_db b existing)),
                   snd (create_concepts_db b existing))"
    unfolding same [symmetric] by (rule create_concepts_db_io_no_fault)
  have "map_option Integrity (fst (create_concepts_db b existing)) = None"
    using assms unfolding pure by simp
  then have "fst (create_concepts_db b existing) = None" by simp
  then obtain s where s: "load_tables b = Inr s"
    by (cases "load_tables b"; cases existing) (simp_all add: create_concepts_db_def Let_def)
  then have "snd (create_concepts_db b existing) = Some s"
    by (cases existing) (simp_all add: create_concepts_db_def Let_def)
  with s show ?thesis unfolding pure by simp
qed

subsection \<open>The file after a run\<close>

text \<open>
  Claim C8, as stated, fails. The storage fails at the first insert of the transaction
  of a build (\<open>OperationalError\<close>); the store that was at the output location before the
  run is not there any more: it was unlinked before the first write.
\<close>

theorem failed_build_replaces_store:
  "fst (create_concepts_db_io (Some 0) (build example_langpacks example_dbs) (Some old_store))
     = Some OperationalError \<and>
   snd (create_concepts_db_io (Some 0) (build example_langpacks example_dbs) (Some old_store))
     \<noteq> Some old_store"
  by (simp add: example_build create_concepts_db_io_def transaction_def lemma_rows_def
        write_lemma_def storage_write_def old_store_def empty_store_def Let_def)

text \<open>
  Claim C8, amended. Whatever the builder, whatever store was at the output location and
  whenever the storage fails: a run that ends with an exception inside the write
  transaction leaves at the output location the newly created store with its four
  empty tables and none of the rows written so far; a run that ends without exception
  leaves the store with all the rows of the builder; and in both cases the result does
  not depend on the store that was there before, which is removed before the first
  write and so is replaced also by a run that fails.
\<close>

theorem create_concepts_db_full_replace:
  "(fst (create_concepts_db_io fault b existing) \<noteq> None \<longrightarrow>
      snd (create_concepts_db_io fault b existing) = Some empty_store) \<and>
   (fst (create_concepts_db_io fault b existing) = None \<longrightarrow>
      (\<exists>s. load_tables b = Inr s \<and> snd (create_concepts_db_io fault b existing) = Some s)) \<and>
   create_concepts_db_io fault b existing = create_concepts_db_io fault b None"
proof -
  let ?conn = "\<lparr>committed = empty_store, pending = empty_store, writes_left = fault\<rparr>"
  have c: "create_concepts_db_io fault b existing =
           (case transaction b ?conn of
              Inl (e, conn') \<Rightarrow> (Some e, Some (committed conn'))
            | Inr conn' \<Rightarrow> (None, Some (committed conn')))" for existing
    by (simp add: create_concepts_db_io_def Let_def)
  have "snd (create_concepts_db_io fault b existing) = Some empty_store"
    if "fst (create_concepts_db_io fault b existing) \<noteq> None"
  proof (cases "transaction b ?conn")
    case (Inl failure)
    obtain e conn' where f: "failure = (e, conn')" by (cases failure)
    with Inl have "committed conn' = committed ?conn" by (intro transaction_failure) simp
    with Inl f show ?thesis by (simp add: c)
  next
    case (Inr conn')
    with that show ?thesis by (simp add: c)
  qed
  moreover have "\<exists>s. load_tables b = Inr s \<and> snd (create_concepts_db_io fault b existing) = Some s"
    if "fst (create_concepts_db_io fault b existing) = None"
    using that by (rule create_concepts_db_io_committed)
  moreover have "create_concepts_db_io fault b existing = create_concepts_db_io fault b None"
    by (simp add: c)
  ultimately show ?thesis by blast
qed

theorem create_concepts_db_full_replace_witness:
  "fst (create_concepts_db_io (Some 0) (build example_langpacks example_dbs) (Some old_store)) \<noteq> None \<and>
   snd (create_concepts_db_io (Some 0) (build example_langpacks example_dbs) (Some old_store))
     = Some empty_store \<and>
   create_concepts_db_io (Some 0) (build example_langpacks example_dbs) (Some old_store)
     = create_concepts_db_io (Some 0) (build example_langpacks example_dbs) None \<and>
   fst (create_concepts_db_io (Some 12) (build example_langpacks example_dbs) (Some old_store)) = None \<and>
   (\<exists>s. load_tables (build example_langpacks example_dbs) = Inr s \<and>
        snd (create_concepts_db_io (Some 12) (build example_langpacks example_dbs) (Some old_store))
          = Some s)"
proof -
  have a: "fst (create_concepts_db_io (Some 0) (build example_langpacks example_dbs) (Some old_store))
             \<noteq> None"
    by (simp add: example_build create_concepts_db_io_def transaction_def lemma_rows_def
          write_lemma_def storage_write_def Let_def)
  have d: "fst (create_concepts_db_io (Some 12) (build example_langpacks example_dbs) (Some old_store))
             = None"
    by (simp add: example_build create_concepts_db_io_def transaction_def lemma_rows_def
          form_rows_def concept_rows_def write_lemma_def write_form_def write_concept_def
          write_sense_def commit_def storage_write_def insert_lemma_def insert_concept_def
          insert_or_ignore_form_def insert_or_ignore_sense_def duplicate_key_def
          lemma_id_key_def lemma_unique_key_def concept_key_def
          empty_store_def Let_def)
  note failed = create_concepts_db_full_replace
                  [of "Some 0" "build example_langpacks example_dbs" "Some old_store"]
  note succeeded = create_concepts_db_full_replace
                     [of "Some 12" "build example_langpacks example_dbs" "Some old_store"]
  from failed a have b: "snd (create_concepts_db_io (Some 0) (build example_langpacks example_dbs)
                      (Some old_store)) = Some empty_store"
    by blast
  from failed have c: "create_concepts_db_io (Some 0) (build example_langpacks example_dbs) (Some old_store)
     = create_concepts_db_io (Some 0) (build example_langpacks example_dbs) None"
    by blast
  from succeeded d have e: "\<exists>s. load_tables (build example_langpacks example_dbs) = Inr s \<and>
        snd (create_concepts_db_io (Some 12) (build example_langpacks example_dbs) (Some old_store))
          = Some s"
    by blast
  from a b c d e show ?thesis by blast
qed

end
